theory Spec2Isabelle
  imports Complex_Main "HOL-Library.List_Lexorder" "HOL-Library.Char_ord"
begin

section \<open>Python strings and integers\<close>

text \<open>
  Python text is modelled as \<^typ>\<open>string\<close>, one \<^typ>\<open>char\<close> per character, restricted to the
  ASCII range: the digit class of the regular expression, \<open>int\<close>, \<open>str.lower\<close>,
  \<open>str.upper\<close> and \<open>str.isdigit\<close> are modelled on ASCII characters. \<open>str.strip\<close> removes
  every white-space character with a code below 256.
  Python integers are unbounded; the integers read from a run of digits are never negative,
  so they are naturals.
\<close>

definition is_digit :: "char \<Rightarrow> bool" where
  "is_digit c = (48 \<le> (of_char c :: nat) \<and> (of_char c :: nat) \<le> 57)"

definition digit_val :: "char \<Rightarrow> nat" where
  "digit_val c = (of_char c :: nat) - 48"

definition digit_char :: "nat \<Rightarrow> char" where
  "digit_char d = char_of (48 + d)"

text \<open>\<open>int(s)\<close> for a non-empty run of decimal digits (leading zeros allowed).\<close>

definition py_int :: "string \<Rightarrow> nat" where
  "py_int ds = foldl (\<lambda>a c. 10 * a + digit_val c) 0 ds"

text \<open>\<open>str(n)\<close>, as used by the f-string \<open>f"[C{n}]"\<close>.\<close>

function py_str :: "nat \<Rightarrow> string" where
  "py_str n = (if n < 10 then [digit_char n] else py_str (n div 10) @ [digit_char (n mod 10)])"
  by pat_completeness auto
termination
  by (relation "measure id") auto

declare py_str.simps [simp del]

text \<open>\<open>sep.join(xs)\<close>.\<close>

fun join :: "string \<Rightarrow> string list \<Rightarrow> string" where
  "join sep [] = []"
| "join sep [x] = x"
| "join sep (x # y # ys) = x @ sep @ join sep (y # ys)"

text \<open>Python's \<open>enumerate(xs, start=1)\<close>.\<close>

definition enumerate1 :: "'a list \<Rightarrow> (nat \<times> 'a) list" where
  "enumerate1 xs = zip [1 ..< Suc (length xs)] xs"

section \<open>The citation tag pattern\<close>

text \<open>
  The pattern \<open>\[C(\d+)\]\<close> is used by \<open>re.finditer\<close> and \<open>re.sub\<close>. Both walk the text
  from left to right over the non-overlapping leftmost matches. \<open>match_here s\<close> is the match
  that starts at the first character of \<open>s\<close>, if any: the digits of group 1 and the text after
  the closing bracket. The greedy \<open>\d+\<close> takes the longest run of digits; a shorter run
  is followed by a digit, never by the bracket, so backtracking finds nothing else.
\<close>

definition match_here :: "string \<Rightarrow> (string \<times> string) option" where
  "match_here s =
     (case s of
        a # b # r \<Rightarrow>
          if a = CHR ''['' \<and> b = CHR ''C'' then
            (case dropWhile is_digit r of
               [] \<Rightarrow> None
             | e # rest \<Rightarrow>
                 if takeWhile is_digit r \<noteq> [] \<and> e = CHR '']''
                 then Some (takeWhile is_digit r, rest) else None)
          else None
      | _ \<Rightarrow> None)"

text \<open>
  The text cut into the pieces the regular-expression engine sees: \<open>Tag ds\<close> is one match
  whose group 1 is \<open>ds\<close>, \<open>Lit c\<close> a character outside every match.
\<close>

datatype piece = Lit char | Tag string

function scan :: "string \<Rightarrow> piece list" where
  "scan [] = []"
| "scan (c # cs) =
     (case match_here (c # cs) of
        Some (ds, rest) \<Rightarrow> Tag ds # scan rest
      | None \<Rightarrow> Lit c # scan cs)"
  by pat_completeness auto
termination
proof (relation "measure length")
  show "wf (measure length)" by simp
next
  fix c :: char and cs x2 x y
  assume m: "match_here (c # cs) = Some x2" and x2: "(x, y) = x2"
  from m x2 obtain b r where cs: "cs = b # r"
    by (cases cs) (auto simp: match_here_def)
  from m x2 cs obtain e where d: "dropWhile is_digit r = e # y"
    by (auto simp: match_here_def split: list.splits if_splits)
  have "length (dropWhile is_digit r) \<le> length r"
    by (rule length_dropWhile_le)
  with d cs show "(y, c # cs) \<in> measure length" by simp
next
  fix c :: char and cs
  show "(cs, c # cs) \<in> measure length" by simp
qed

text \<open>\<open>match.group(0)\<close> of a match with group 1 \<open>ds\<close>.\<close>

definition group0 :: "string \<Rightarrow> string" where
  "group0 ds = ''[C'' @ ds @ '']''"

text \<open>\<open>[m.group(1) for m in re.finditer(pattern, text)]\<close>.\<close>

definition finditer :: "string \<Rightarrow> string list" where
  "finditer text = concat (map (\<lambda>p. case p of Lit c \<Rightarrow> [] | Tag ds \<Rightarrow> [ds]) (scan text))"

text \<open>\<open>re.sub(pattern, repl, text)\<close> with a function \<open>repl\<close> of the match's group 1.\<close>

definition re_sub :: "(string \<Rightarrow> string) \<Rightarrow> string \<Rightarrow> string" where
  "re_sub repl text = concat (map (\<lambda>p. case p of Lit c \<Rightarrow> [c] | Tag ds \<Rightarrow> repl ds) (scan text))"

section \<open>Citation reconciliation (qa\_system.py)\<close>

text \<open>
  \<open>_parse_used_tags\<close>: the loop over the matches keeps a set \<open>seen\<close> and the list
  \<open>order\<close>.
\<close>

fun parse_loop :: "string list \<Rightarrow> nat set \<Rightarrow> nat list \<Rightarrow> nat list" where
  "parse_loop [] seen order = order"
| "parse_loop (g # gs) seen order =
     (let cid = py_int g in
      if cid \<notin> seen then parse_loop gs (insert cid seen) (order @ [cid])
      else parse_loop gs seen order)"

definition parse_used_tags :: "string \<Rightarrow> nat list" where
  "parse_used_tags text = parse_loop (finditer text) {} []"

text \<open>
  \<open>_compact_renumber\<close>: the dict comprehension over \<open>enumerate(used_ids, start=1)\<close>
  (a later pair overrides an earlier one with the same key), the replacement function and
  \<open>re.sub\<close>.
\<close>

definition renumber_mapping :: "nat list \<Rightarrow> (nat \<rightharpoonup> nat)" where
  "renumber_mapping used_ids =
     fold (\<lambda>(new, old) m. m(old \<mapsto> new)) (enumerate1 used_ids) Map.empty"

definition replace :: "(nat \<rightharpoonup> nat) \<Rightarrow> string \<Rightarrow> string" where
  "replace mapping ds =
     (let old_id = py_int ds in
      case mapping old_id of
        Some new \<Rightarrow> ''[C'' @ py_str new @ '']''
      | None \<Rightarrow> group0 ds)"

definition compact_renumber :: "string \<Rightarrow> nat list \<Rightarrow> string \<times> (nat \<rightharpoonup> nat)" where
  "compact_renumber text used_ids =
     (let mapping = renumber_mapping used_ids;
          new_text = re_sub (replace mapping) text
      in (new_text, mapping))"

section \<open>Data model (models.py)\<close>

record DocumentChunk =
  content :: string
  ticker :: string
  filing_type :: string
  filing_date :: string
  chunk_section :: "string option"
  chunk_id :: string
  source_url :: string
  page_number :: "int option"
  confidence_score :: real

record Source =
  src_ticker :: string
  src_filing_type :: string
  src_filing_date :: string
  src_section :: "string option"
  src_url :: "string option"
  src_chunk_id :: "string option"
  src_note :: "string option"

record AnswerWithSources =
  answer :: string
  ans_confidence_score :: real
  sources :: "Source list"
  citations :: "string list"
  methodology :: string
  limitations :: "string list"
  companies_analyzed :: "string list"
  filing_types_used :: "string list"
  time_period_covered :: "string option"
  key_metrics :: "(string \<times> string) list"
  recommendations :: "string list"
  tool_used :: "string option"
  used_chunk_ids :: "string list"

text \<open>The field defaults of \<open>AnswerWithSources\<close>.\<close>

definition default_answer :: AnswerWithSources where
  "default_answer =
     \<lparr> answer = '''', ans_confidence_score = 0.5, sources = [], citations = [],
       methodology = '''', limitations = [], companies_analyzed = [], filing_types_used = [],
       time_period_covered = None, key_metrics = [], recommendations = [], tool_used = None,
       used_chunk_ids = [] \<rparr>"

section \<open>Step 5 of answer\_question: normalising the citations\<close>

text \<open>The dictionary \<open>allowed_map\<close> built by the loop over \<open>enumerate(document_chunks, start=1)\<close>.\<close>

definition allowed_map_of :: "DocumentChunk list \<Rightarrow> (nat \<rightharpoonup> DocumentChunk)" where
  "allowed_map_of document_chunks =
     fold (\<lambda>(i, chunk) m. m(i \<mapsto> chunk)) (enumerate1 document_chunks) Map.empty"

text \<open>\<open>chunk.section or "Summary"\<close>: \<open>None\<close> and the empty string are both falsy.\<close>

definition section_or_summary :: "string option \<Rightarrow> string" where
  "section_or_summary s = (case s of None \<Rightarrow> ''Summary'' | Some x \<Rightarrow> if x = [] then ''Summary'' else x)"

definition source_of_chunk :: "DocumentChunk \<Rightarrow> Source" where
  "source_of_chunk chunk =
     \<lparr> src_ticker = ticker chunk,
       src_filing_type = filing_type chunk,
       src_filing_date = filing_date chunk,
       src_section = Some (section_or_summary (chunk_section chunk)),
       src_url = Some (source_url chunk),
       src_chunk_id = Some (chunk_id chunk),
       src_note = None \<rparr>"

text \<open>
  The loop \<open>for old_id in original_ids\<close>. A \<open>DocumentChunk\<close> object is always truthy, so
  \<open>if chunk\<close> tests only that \<open>allowed_map.get(old_id)\<close> found an entry.
\<close>

fun resolve_sources ::
  "(nat \<rightharpoonup> DocumentChunk) \<Rightarrow> nat list \<Rightarrow> Source list \<times> string list \<Rightarrow> Source list \<times> string list" where
  "resolve_sources allowed_map [] acc = acc"
| "resolve_sources allowed_map (old_id # ids) (srcs, used) =
     (case allowed_map old_id of
        Some chunk \<Rightarrow>
          resolve_sources allowed_map ids (srcs @ [source_of_chunk chunk], used @ [chunk_id chunk])
      | None \<Rightarrow> resolve_sources allowed_map ids (srcs, used))"

definition normalize_citations :: "(nat \<rightharpoonup> DocumentChunk) \<Rightarrow> AnswerWithSources \<Rightarrow> AnswerWithSources" where
  "normalize_citations allowed_map a =
     (let original_ids = parse_used_tags (answer a);
          (new_text, id_map) = compact_renumber (answer a) original_ids;
          (srcs, used) = resolve_sources allowed_map original_ids ([], [])
      in a\<lparr> answer := new_text, sources := srcs, used_chunk_ids := used \<rparr>)"

section \<open>More Python string operations\<close>

text \<open>\<open>str.upper\<close> and \<open>str.lower\<close> on ASCII letters; other characters are unchanged.\<close>

definition upper_char :: "char \<Rightarrow> char" where
  "upper_char c =
     (if 97 \<le> (of_char c :: nat) \<and> (of_char c :: nat) \<le> 122 then char_of ((of_char c :: nat) - 32) else c)"

definition lower_char :: "char \<Rightarrow> char" where
  "lower_char c =
     (if 65 \<le> (of_char c :: nat) \<and> (of_char c :: nat) \<le> 90 then char_of ((of_char c :: nat) + 32) else c)"

definition py_upper :: "string \<Rightarrow> string" where
  "py_upper s = map upper_char s"

definition py_lower :: "string \<Rightarrow> string" where
  "py_lower s = map lower_char s"

text \<open>\<open>s.startswith(p)\<close> and the substring test \<open>sub in s\<close>.\<close>

fun starts_with :: "string \<Rightarrow> string \<Rightarrow> bool" where
  "starts_with [] s = True"
| "starts_with (p # ps) [] = False"
| "starts_with (p # ps) (c # cs) = (p = c \<and> starts_with ps cs)"

fun py_in :: "string \<Rightarrow> string \<Rightarrow> bool" where
  "py_in sub [] = (sub = [])"
| "py_in sub (c # cs) = (starts_with sub (c # cs) \<or> py_in sub cs)"

text \<open>The exceptions the modelled code can raise.\<close>

datatype py_error = IndexError | TypeError | Raised string

section \<open>The query interpretation (models.py)\<close>

datatype query_type_label =
  single_ticker | multi_ticker_comparison | temporal_analysis
  | multi_dimensional | industry_analysis | thematic_analysis

record QueryAnalysis =
  tickers :: "string list"
  time_periods :: "string list"
  document_types :: "string list"
  query_type :: query_type_label
  sectors :: "string list"
  query_keywords :: "string list"
  complexity_score :: real
  suggested_tickers :: "string list"
  selection_reason :: string

section \<open>The retrieval strategy (data\_retriever.py)\<close>

text \<open>A target is the dictionary with the keys \<open>ticker\<close>, \<open>filing_type\<close> and \<open>sections\<close>.\<close>

record target =
  target_ticker :: string
  target_filing_type :: string
  target_sections :: "string list"

record strategy =
  description :: string
  reason :: string
  targets :: "target list"

definition get_default_companies :: "QueryAnalysis \<Rightarrow> string list" where
  "get_default_companies analysis =
     (let kw = py_lower (join '' '' (query_keywords analysis)) in
      if py_in ''financial'' kw then [''JPM'']
      else if py_in ''healthcare'' kw then [''JNJ'']
      else [''AAPL''])"

text \<open>
  The first lines of \<open>_determine_retrieval_strategy\<close>: the lowered keyword text, the set of
  upper-cased document types and the companies (line 64).
\<close>

definition strategy_kw :: "QueryAnalysis \<Rightarrow> string" where
  "strategy_kw analysis = py_lower (join '' '' (query_keywords analysis))"

definition strategy_docset :: "QueryAnalysis \<Rightarrow> string set" where
  "strategy_docset analysis = set (map py_upper (document_types analysis))"

definition strategy_companies :: "QueryAnalysis \<Rightarrow> string list" where
  "strategy_companies analysis =
     (if tickers analysis \<noteq> [] then take 2 (tickers analysis)
      else take 2 (get_default_companies analysis))"

text \<open>
  \<open>sorted(docset & {'3','4','5'}, key=...)\<close> with the keys 4 before 3 before 5: the members
  of the intersection in this order.
\<close>

definition insider_req :: "QueryAnalysis \<Rightarrow> string list" where
  "insider_req analysis = filter (\<lambda>f. f \<in> strategy_docset analysis) [''4'', ''3'', ''5'']"

text \<open>The conditions of the four rules that come before the query-type rule.\<close>

definition insider_rule :: "QueryAnalysis \<Rightarrow> bool" where
  "insider_rule analysis =
     (insider_req analysis \<noteq> [] \<or>
      (py_in ''insider'' (strategy_kw analysis) \<or> py_in ''trading'' (strategy_kw analysis)))"

definition risk_rule :: "QueryAnalysis \<Rightarrow> bool" where
  "risk_rule analysis =
     (''10-K'' \<in> strategy_docset analysis \<or>
      (py_in ''risk'' (strategy_kw analysis) \<or> py_in ''factor'' (strategy_kw analysis)))"

definition mda_rule :: "QueryAnalysis \<Rightarrow> bool" where
  "mda_rule analysis =
     (''10-Q'' \<in> strategy_docset analysis \<or>
      (py_in ''md&a'' (strategy_kw analysis) \<or> py_in ''management discussion'' (strategy_kw analysis)))"

definition proxy_rule :: "QueryAnalysis \<Rightarrow> bool" where
  "proxy_rule analysis =
     (''DEF 14A'' \<in> strategy_docset analysis \<or>
      (py_in ''compensation'' (strategy_kw analysis) \<or> py_in ''proxy'' (strategy_kw analysis)))"

definition mk_target :: "string \<Rightarrow> string list \<Rightarrow> string \<Rightarrow> target" where
  "mk_target f secs c = \<lparr> target_ticker = c, target_filing_type = f, target_sections = secs \<rparr>"

text \<open>
  \<open>_determine_retrieval_strategy\<close>. The only expression that can raise is
  \<open>companies[0]\<close> in the default rule.
\<close>

definition determine_retrieval_strategy :: "QueryAnalysis \<Rightarrow> bool \<Rightarrow> py_error + strategy" where
  "determine_retrieval_strategy analysis allow_default =
     (let companies = strategy_companies analysis in
      if insider_rule analysis then
        (let forms_to_pull = (if insider_req analysis \<noteq> [] then insider_req analysis else [''4'']) in
         Inr \<lparr> description = ''Insider trading targeted'', reason = ''explicit_form_or_keyword'',
               targets = concat (map (\<lambda>c. map (\<lambda>f. mk_target f [] c) forms_to_pull) (take 2 companies)) \<rparr>)
      else if risk_rule analysis then
        Inr \<lparr> description = ''10-K Risk factors (Item 1A)'', reason = ''explicit_form_or_keyword'',
              targets = map (mk_target ''10-K'' [''1A'']) (take 2 companies) \<rparr>
      else if mda_rule analysis then
        Inr \<lparr> description = ''10-Q MD&A (part1item2)'', reason = ''explicit_form_or_keyword'',
              targets = map (mk_target ''10-Q'' [''part1item2'']) (take 2 companies) \<rparr>
      else if proxy_rule analysis then
        Inr \<lparr> description = ''Proxy / compensation'', reason = ''explicit_form_or_keyword'',
              targets = map (mk_target ''DEF 14A'' []) (take 2 companies) \<rparr>
      else if query_type analysis = multi_ticker_comparison then
        Inr \<lparr> description = ''Multi-company comparison (10-K 1A)'', reason = ''query_type'',
              targets = map (mk_target ''10-K'' [''1A'']) companies \<rparr>
      else if allow_default then
        (case companies of
           [] \<Rightarrow> Inl IndexError
         | c0 # _ \<Rightarrow>
             Inr \<lparr> description = ''Default targeted (single 10-K 1A)'', reason = ''default'',
                   targets = [mk_target ''10-K'' [''1A''] c0] \<rparr>)
      else Inr \<lparr> description = ''No matching rule'', reason = ''no_match'', targets = [] \<rparr>)"

section \<open>The evidence cache (qa\_system.py, \_retrieve\_documents)\<close>

text \<open>\<open>str.isdigit\<close> on ASCII text: non-empty and all digits.\<close>

definition py_isdigit :: "string \<Rightarrow> bool" where
  "py_isdigit s = (s \<noteq> [] \<and> list_all is_digit s)"

text \<open>
  The loop over \<open>analysis.time_periods\<close> that sets \<open>date_from\<close>: the first period of four
  digits gives the first of January of that year, otherwise \<open>date_from\<close> stays \<open>None\<close>.
\<close>

fun date_from_of :: "string list \<Rightarrow> string option" where
  "date_from_of [] = None"
| "date_from_of (period # periods) =
     (if py_isdigit period \<and> length period = 4 then Some (period @ ''-01-01'')
      else date_from_of periods)"

text \<open>\<open>any(k in keywords for k in ks)\<close>.\<close>

definition any_in :: "string list \<Rightarrow> string \<Rightarrow> bool" where
  "any_in ks text = list_ex (\<lambda>k. py_in k text) ks"

definition get_default_document_types :: "QueryAnalysis \<Rightarrow> string list" where
  "get_default_document_types analysis =
     (let keywords = py_lower (join '' '' (query_keywords analysis)) in
      if any_in [''insider'', ''trading'', ''purchase'', ''sale''] keywords then [''4'', ''3'', ''5'']
      else if any_in [''compensation'', ''executive'', ''salary'', ''pay''] keywords then [''DEF 14A'']
      else if any_in [''acquisition'', ''merger'', ''material'', ''event''] keywords then [''8-K'']
      else if any_in [''risk'', ''factor'', ''business''] keywords then [''10-K'']
      else if any_in [''quarterly'', ''q1'', ''q2'', ''q3'', ''q4''] keywords then [''10-Q'']
      else [''10-K'', ''10-Q''])"

text \<open>\<open>analysis.document_types or self._get_default_document_types(analysis)\<close>.\<close>

definition effective_document_types :: "QueryAnalysis \<Rightarrow> string list" where
  "effective_document_types analysis =
     (if document_types analysis \<noteq> [] then document_types analysis
      else get_default_document_types analysis)"

text \<open>The f-string \<open>f"{company}_{'-'.join(document_types)}_{date_from or 'recent'}"\<close>.\<close>

definition cache_key :: "string \<Rightarrow> string list \<Rightarrow> string option \<Rightarrow> string" where
  "cache_key company dts date_from =
     company @ ''_'' @ join ''-'' dts @ ''_'' @
     (case date_from of None \<Rightarrow> ''recent'' | Some d \<Rightarrow> if d = [] then ''recent'' else d)"

text \<open>
  The state of the system object that \<open>_retrieve_documents\<close> reads and writes:
  \<open>self.document_cache\<close> and \<open>self.missing_companies\<close>. The field \<open>fetch_calls\<close> is not in
  the source: it logs the arguments of every call of \<open>data_retriever.fetch_filings\<close>, so that
  the number of calls can be stated.
\<close>

record qa_state =
  document_cache :: "string \<rightharpoonup> DocumentChunk list"
  missing_companies :: "string list"
  fetch_calls :: "(string \<times> string list \<times> string option) list"

text \<open>
  \<open>fetch_filings(company, document_types, date_from, limit=3)\<close> asks the filing provider
  over the network. It is a parameter here: a function of the number of calls made before
  (the provider may answer differently each time) and of the arguments.
\<close>

type_synonym fetcher = "nat \<Rightarrow> string \<Rightarrow> string list \<Rightarrow> string option \<Rightarrow> DocumentChunk list"

fun retrieve_loop ::
  "fetcher \<Rightarrow> string list \<Rightarrow> string option \<Rightarrow> string list \<Rightarrow> qa_state \<times> DocumentChunk list
     \<Rightarrow> qa_state \<times> DocumentChunk list" where
  "retrieve_loop fetch dts date_from [] (st, all_chunks) = (st, all_chunks)"
| "retrieve_loop fetch dts date_from (company # companies) (st, all_chunks) =
     (let key = cache_key company dts date_from in
      case document_cache st key of
        Some cached \<Rightarrow> retrieve_loop fetch dts date_from companies (st, all_chunks @ cached)
      | None \<Rightarrow>
          (let chunks = fetch (length (fetch_calls st)) company dts date_from;
               st1 = st\<lparr> fetch_calls := fetch_calls st @ [(company, dts, date_from)] \<rparr>
           in if chunks \<noteq> [] then
                retrieve_loop fetch dts date_from companies
                  (st1\<lparr> document_cache := (document_cache st1)(key \<mapsto> chunks) \<rparr>,
                   all_chunks @ chunks)
              else
                retrieve_loop fetch dts date_from companies
                  (st1\<lparr> missing_companies := missing_companies st1 @ [company] \<rparr>, all_chunks)))"

definition retrieve_documents ::
  "fetcher \<Rightarrow> string list \<Rightarrow> QueryAnalysis \<Rightarrow> qa_state \<Rightarrow> qa_state \<times> DocumentChunk list" where
  "retrieve_documents fetch companies analysis st =
     (let date_from = date_from_of (time_periods analysis);
          document_types = effective_document_types analysis
      in retrieve_loop fetch document_types date_from companies
           (st\<lparr> missing_companies := [] \<rparr>, []))"

section \<open>The filing provider (external services)\<close>

text \<open>
  A field of a JSON object of the provider, as the code reads it with \<open>dict.get\<close>: absent,
  \<open>null\<close>, or a string.
\<close>

datatype jfield = Absent | Null | Str string

text \<open>
  The outcome of one HTTP request: \<open>Failed\<close> when \<open>requests\<close> raises (time-out,
  connection error) or the body cannot be read as the expected JSON, else the status code
  and the body. A body without the expected list is the empty list.
\<close>

datatype 'a http = Failed | Response nat 'a

text \<open>One entry of \<open>filings\<close> in the answer of the search service.\<close>

record filing =
  linkToHtml :: jfield
  linkToTxt :: jfield
  filedAt :: jfield
  companyName :: jfield
  filing_description :: jfield
  linkToFilingDetails :: jfield

text \<open>
  One non-derivative transaction of an insider filing: the raw values under
  \<open>amounts.shares\<close> and \<open>amounts.pricePerShare\<close> (of a type \<open>'v\<close> of raw JSON values), and
  \<open>amounts.acquiredDisposedCode\<close>.
\<close>

record 'v nd_transaction =
  shares :: 'v
  pricePerShare :: 'v
  acquiredDisposedCode :: jfield

text \<open>
  One entry of \<open>transactions\<close> in the answer of the insider service:
  \<open>reportingOwner.name\<close>, \<open>filedAt\<close>, \<open>nonDerivativeTable.transactions\<close> and
  \<open>linkToFilingDetails\<close>.
\<close>

record 'v insider_filing =
  reportingOwner_name :: jfield
  insider_filedAt :: jfield
  nonDerivative_transactions :: "'v nd_transaction list"
  insider_linkToFilingDetails :: jfield

text \<open>
  The services. Each takes the number of the fetch within the running retrieval, so that
  the provider may answer the same request differently at different times, and the request:
  the query string of the search and insider services, the link and item of the section
  extractor. \<open>default_date_from\<close> is the ISO date 180 days before now.
\<close>

record 'v world =
  search_post :: "nat \<Rightarrow> string \<Rightarrow> filing list http"
  extractor_get :: "nat \<Rightarrow> string \<Rightarrow> string \<Rightarrow> string http"
  insider_post :: "nat \<Rightarrow> string \<Rightarrow> 'v insider_filing list http"
  default_date_from :: string

text \<open>
  Python floats are not modelled. The numbers of the insider fetcher are of a type \<open>'n\<close>
  with the operations the code uses: \<open>to_float\<close> is \<open>float(x or 0)\<close> on a raw value
  (\<open>None\<close> when it raises), then product, sum, zero, the test \<open>> 0\<close>, and the format
  specifications \<open>,.0f\<close> and \<open>.2f\<close>.
\<close>

record ('v, 'n) float_ops =
  to_float :: "'v \<Rightarrow> 'n option"
  fmul :: "'n \<Rightarrow> 'n \<Rightarrow> 'n"
  fadd :: "'n \<Rightarrow> 'n \<Rightarrow> 'n"
  fzero :: 'n
  fpositive :: "'n \<Rightarrow> bool"
  fmt_grouped0 :: "'n \<Rightarrow> string"
  fmt_fixed2 :: "'n \<Rightarrow> string"

text \<open>
  Reading a field: \<open>d.get(k, default)[:n]\<close> raises a type error on \<open>null\<close>; a field put
  into an f-string prints \<open>None\<close> for \<open>null\<close>; a field given to a \<open>str\<close> attribute of a
  pydantic model is refused when it is \<open>null\<close>; \<open>d.get(k)\<close> is truthy only for a non-empty
  string.
\<close>

definition slice_field :: "nat \<Rightarrow> string \<Rightarrow> jfield \<Rightarrow> py_error + string" where
  "slice_field n dflt f =
     (case f of Absent \<Rightarrow> Inr (take n dflt) | Null \<Rightarrow> Inl TypeError | Str s \<Rightarrow> Inr (take n s))"

definition fmt_field :: "string \<Rightarrow> jfield \<Rightarrow> string" where
  "fmt_field dflt f = (case f of Absent \<Rightarrow> dflt | Null \<Rightarrow> ''None'' | Str s \<Rightarrow> s)"

definition str_field :: "string \<Rightarrow> jfield \<Rightarrow> py_error + string" where
  "str_field dflt f =
     (case f of Absent \<Rightarrow> Inr dflt | Null \<Rightarrow> Inl (Raised ''ValidationError'') | Str s \<Rightarrow> Inr s)"

definition truthy :: "jfield \<Rightarrow> string option" where
  "truthy f = (case f of Str s \<Rightarrow> if s = [] then None else Some s | _ \<Rightarrow> None)"

text \<open>
  \<open>str.strip\<close> removes the characters for which \<open>str.isspace\<close> holds. Among the codes
  below 256 these are 9 to 13, 28 to 32, 133 (next line) and 160 (no-break space).
\<close>

definition is_space :: "char \<Rightarrow> bool" where
  "is_space c = ((of_char c :: nat) \<in> {9, 10, 11, 12, 13, 28, 29, 30, 31, 32, 133, 160})"

definition py_strip :: "string \<Rightarrow> string" where
  "py_strip s = rev (dropWhile is_space (rev (dropWhile is_space s)))"

definition newline :: string where
  "newline = [CHR 0x0A]"

definition dquote :: string where
  "dquote = [CHR 0x22]"

section \<open>The targeted fetchers (data\_retriever.py)\<close>

text \<open>\<open>_resolve_date_from\<close>: the same loop over the time periods, else the default date.\<close>

definition resolve_date_from :: "'v world \<Rightarrow> QueryAnalysis \<Rightarrow> string" where
  "resolve_date_from w analysis =
     (case date_from_of (time_periods analysis) of Some d \<Rightarrow> d | None \<Rightarrow> default_date_from w)"

definition section_name :: "string \<Rightarrow> string" where
  "section_name form_type =
     (if form_type = ''8-K'' then ''Material Event''
      else if form_type = ''DEF 14A'' then ''Proxy Statement''
      else if form_type = ''3'' then ''Initial Statement of Ownership''
      else if form_type = ''4'' then ''Statement of Changes in Ownership''
      else if form_type = ''5'' then ''Annual Statement of Ownership''
      else form_type @ '' Filing'')"

text \<open>
  \<open>_fetch_insider_targeted\<close>, line 144: the word for the acquired/disposed code, and
  line 145: the line of one transaction.
\<close>

definition targeted_action :: "jfield \<Rightarrow> string" where
  "targeted_action code = (if code = Str ''A'' then ''Acquired'' else ''Disposed'')"

definition insider_line :: "('v, 'n) float_ops \<Rightarrow> jfield \<Rightarrow> 'n \<Rightarrow> 'n \<Rightarrow> 'n \<Rightarrow> string" where
  "insider_line ops code sh px val =
     ''- '' @ targeted_action code @ '' '' @ fmt_grouped0 ops sh @ '' @ $'' @ fmt_fixed2 ops px
       @ '' ($'' @ fmt_grouped0 ops val @ '')''"

text \<open>
  The same choice in \<open>_format_insider_filing\<close> (lines 378 and 383), the formatter of the
  general retrieval path: the code defaults to \<open>Unknown\<close> and any code other than \<open>A\<close>
  and \<open>D\<close> is passed on.
\<close>

definition format_insider_action :: "jfield \<Rightarrow> string" where
  "format_insider_action code =
     (let acq_disp = (case code of Absent \<Rightarrow> Str ''Unknown'' | Null \<Rightarrow> Null | Str s \<Rightarrow> Str s) in
      if acq_disp = Str ''A'' then ''Acquired''
      else if acq_disp = Str ''D'' then ''Disposed''
      else fmt_field [] acq_disp)"

text \<open>
  The loop over \<open>nd[:2]\<close>: a transaction whose shares or price cannot be read as a float
  is skipped.
\<close>

fun nd_loop ::
  "('v, 'n) float_ops \<Rightarrow> 'v nd_transaction list \<Rightarrow> 'n \<Rightarrow> string list \<Rightarrow> 'n \<times> string list" where
  "nd_loop ops [] total_value lines = (total_value, lines)"
| "nd_loop ops (t # ts) total_value lines =
     (case to_float ops (shares t) of
        None \<Rightarrow> nd_loop ops ts total_value lines
      | Some sh \<Rightarrow>
          (case to_float ops (pricePerShare t) of
             None \<Rightarrow> nd_loop ops ts total_value lines
           | Some px \<Rightarrow>
               (let val = fmul ops sh px in
                nd_loop ops ts (fadd ops total_value val)
                  (lines @ [insider_line ops (acquiredDisposedCode t) sh px val]))))"

text \<open>
  The body of the \<open>try\<close> of \<open>_fetch_insider_targeted\<close>. An exception is a value \<open>Inl\<close>;
  the handler returns \<open>chunks\<close>, which is still empty wherever the body can raise.
\<close>

definition fetch_insider_body ::
  "('v, 'n) float_ops \<Rightarrow> 'v world \<Rightarrow> nat \<Rightarrow> string \<Rightarrow> string \<Rightarrow> QueryAnalysis
     \<Rightarrow> py_error + DocumentChunk list" where
  "fetch_insider_body ops w i tkr form_type analysis =
     (let date_from = resolve_date_from w analysis;
          q = ''issuer.tradingSymbol:'' @ tkr @ '' AND documentType:'' @ form_type
                @ '' AND filedAt:['' @ date_from @ '' TO *]''
      in case insider_post w i q of
           Failed \<Rightarrow> Inl (Raised ''request'')
         | Response status txs \<Rightarrow>
             if status \<noteq> 200 then Inr []
             else
               (case txs of
                  [] \<Rightarrow> Inr []
                | filing # _ \<Rightarrow>
                    (let person = fmt_field ''Unknown Person'' (reportingOwner_name filing) in
                     case slice_field 10 '''' (insider_filedAt filing) of
                       Inl e \<Rightarrow> Inl e
                     | Inr filed \<Rightarrow>
                         (let lines0 = [''Recent Insider Trading - '' @ tkr, ''Person: '' @ person,
                                        ''Filed: '' @ filed, ''''];
                              (total_value, lines1) =
                                 nd_loop ops (take 2 (nonDerivative_transactions filing)) (fzero ops) lines0;
                              lines2 = (if fpositive ops total_value
                                        then lines1 @ [newline @ ''Total Value: $'' @ fmt_grouped0 ops total_value]
                                        else lines1);
                              content = join newline lines2
                          in if content \<noteq> [] then
                               (case str_field '''' (insider_linkToFilingDetails filing) of
                                  Inl e \<Rightarrow> Inl e
                                | Inr url \<Rightarrow>
                                    Inr [\<lparr> content = take 1200 content, ticker = tkr,
                                           filing_type = form_type, filing_date = filed,
                                           chunk_section = Some (''Insider Filing - '' @ person),
                                           chunk_id = tkr @ ''_'' @ form_type @ ''_targeted'',
                                           source_url = url, page_number = None,
                                           confidence_score = 1 \<rparr>])
                             else Inr []))))"

definition fetch_insider_targeted ::
  "('v, 'n) float_ops \<Rightarrow> 'v world \<Rightarrow> nat \<Rightarrow> string \<Rightarrow> string \<Rightarrow> QueryAnalysis \<Rightarrow> DocumentChunk list" where
  "fetch_insider_targeted ops w i tkr form_type analysis =
     (case fetch_insider_body ops w i tkr form_type analysis of Inl e \<Rightarrow> [] | Inr chunks \<Rightarrow> chunks)"

text \<open>The query of the search service, \<open>f'ticker:{ticker} AND formType:"{form_type}"'\<close>.\<close>

definition search_query :: "string \<Rightarrow> string \<Rightarrow> string" where
  "search_query tkr form_type = ''ticker:'' @ tkr @ '' AND formType:'' @ dquote @ form_type @ dquote"

text \<open>\<open>filing.get("linkToHtml") or filing.get("linkToTxt")\<close>, when it is truthy.\<close>

definition filing_link :: "filing \<Rightarrow> string option" where
  "filing_link filing =
     (case truthy (linkToHtml filing) of Some l \<Rightarrow> Some l | None \<Rightarrow> truthy (linkToTxt filing))"

text \<open>Line 185: the text is cut to 1500 characters and three dots are appended.\<close>

definition truncate_text :: "string \<Rightarrow> string" where
  "truncate_text text = (if length text > 1500 then take 1500 text @ ''...'' else text)"

definition fetch_structured_body ::
  "'v world \<Rightarrow> nat \<Rightarrow> string \<Rightarrow> string \<Rightarrow> string list \<Rightarrow> QueryAnalysis
     \<Rightarrow> py_error + DocumentChunk list" where
  "fetch_structured_body w i tkr form_type sections analysis =
     (case search_post w i (search_query tkr form_type) of
        Failed \<Rightarrow> Inl (Raised ''request'')
      | Response status filings \<Rightarrow>
          if status \<noteq> 200 then Inr []
          else
            (case filings of
               [] \<Rightarrow> Inr []
             | filing # _ \<Rightarrow>
                 (case filing_link filing of
                       None \<Rightarrow> Inr []
                     | Some link \<Rightarrow>
                         (case sections of
                            [] \<Rightarrow> Inr []
                          | sec # _ \<Rightarrow>
                              (case extractor_get w i link sec of
                                 Failed \<Rightarrow> Inl (Raised ''request'')
                               | Response status2 body \<Rightarrow>
                                   if status2 \<noteq> 200 then Inr []
                                   else
                                     (let text = py_strip body in
                                      if length text < 200 then Inr []
                                      else
                                        (case slice_field 10 '''' (filedAt filing) of
                                           Inl e \<Rightarrow> Inl e
                                         | Inr filed \<Rightarrow>
                                             Inr [\<lparr> content = truncate_text text, ticker = tkr,
                                                    filing_type = form_type, filing_date = filed,
                                                    chunk_section = Some (''Item '' @ sec),
                                                    chunk_id = tkr @ ''_'' @ form_type @ ''_'' @ sec @ ''_targeted'',
                                                    source_url = link, page_number = None,
                                                    confidence_score = 1 \<rparr>])))))))"

definition fetch_structured_targeted ::
  "'v world \<Rightarrow> nat \<Rightarrow> string \<Rightarrow> string \<Rightarrow> string list \<Rightarrow> QueryAnalysis \<Rightarrow> DocumentChunk list" where
  "fetch_structured_targeted w i tkr form_type sections analysis =
     (case fetch_structured_body w i tkr form_type sections analysis of
        Inl e \<Rightarrow> [] | Inr chunks \<Rightarrow> chunks)"

text \<open>The summary text of \<open>_fetch_general_targeted\<close> (a triple-quoted f-string).\<close>

definition general_content :: "string \<Rightarrow> string \<Rightarrow> string \<Rightarrow> string \<Rightarrow> string" where
  "general_content form_type company date desc =
     form_type @ '' Filing - '' @ company @ newline @
     ''Date: '' @ date @ newline @
     ''Summary: '' @ desc @ ''...'' @ newline @ newline @
     ''This filing contains material information relevant to the query.''"

definition fetch_general_body ::
  "'v world \<Rightarrow> nat \<Rightarrow> string \<Rightarrow> string \<Rightarrow> QueryAnalysis \<Rightarrow> py_error + DocumentChunk list" where
  "fetch_general_body w i tkr form_type analysis =
     (case search_post w i (search_query tkr form_type) of
        Failed \<Rightarrow> Inl (Raised ''request'')
      | Response status filings \<Rightarrow>
          if status \<noteq> 200 then Inr []
          else
            (case filings of
               [] \<Rightarrow> Inr []
             | f # _ \<Rightarrow>
                 (let company = fmt_field ''Unknown Company'' (companyName f) in
                  case slice_field 10 '''' (filedAt f) of
                    Inl e \<Rightarrow> Inl e
                  | Inr date \<Rightarrow>
                      (case slice_field 180 (form_type @ '' filing'') (filing_description f) of
                         Inl e \<Rightarrow> Inl e
                       | Inr desc \<Rightarrow>
                           (case str_field '''' (linkToFilingDetails f) of
                              Inl e \<Rightarrow> Inl e
                            | Inr url \<Rightarrow>
                                Inr [\<lparr> content = general_content form_type company date desc,
                                       ticker = tkr, filing_type = form_type, filing_date = date,
                                       chunk_section = Some (section_name form_type),
                                       chunk_id = tkr @ ''_'' @ form_type @ ''_targeted'',
                                       source_url = url, page_number = None,
                                       confidence_score = 0.8 \<rparr>])))))"

definition fetch_general_targeted ::
  "'v world \<Rightarrow> nat \<Rightarrow> string \<Rightarrow> string \<Rightarrow> QueryAnalysis \<Rightarrow> DocumentChunk list" where
  "fetch_general_targeted w i tkr form_type analysis =
     (case fetch_general_body w i tkr form_type analysis of Inl e \<Rightarrow> [] | Inr chunks \<Rightarrow> chunks)"

section \<open>The fallback controller (fetch\_targeted\_filings)\<close>

text \<open>The slice \<open>xs[:n]\<close> for a Python integer \<open>n\<close>: a negative \<open>n\<close> counts from the end.\<close>

definition py_slice_to :: "int \<Rightarrow> 'a list \<Rightarrow> 'a list" where
  "py_slice_to n xs = (if 0 \<le> n then take (nat n) xs else take (length xs - nat (- n)) xs)"

text \<open>
  The body of the loop over the targets: the fetcher is chosen by the form; the sections
  are cut to the first one.
\<close>

definition fetch_target ::
  "('v, 'n) float_ops \<Rightarrow> 'v world \<Rightarrow> QueryAnalysis \<Rightarrow> nat \<Rightarrow> target \<Rightarrow> DocumentChunk list" where
  "fetch_target ops w analysis i t =
     (let tkr = target_ticker t; form = target_filing_type t;
          sections = take 1 (target_sections t)
      in if form \<in> set [''3'', ''4'', ''5''] then fetch_insider_targeted ops w i tkr form analysis
         else if form \<in> set [''10-K'', ''10-Q''] then fetch_structured_targeted w i tkr form sections analysis
         else fetch_general_targeted w i tkr form analysis)"

text \<open>The loop \<open>for t in strategy['targets'][:max_targets]\<close> with \<open>chunks += ...\<close>.\<close>

fun run_targets ::
  "('v, 'n) float_ops \<Rightarrow> 'v world \<Rightarrow> QueryAnalysis \<Rightarrow> nat \<Rightarrow> target list \<Rightarrow> DocumentChunk list
     \<Rightarrow> DocumentChunk list" where
  "run_targets ops w analysis i [] chunks = chunks"
| "run_targets ops w analysis i (t # ts) chunks =
     run_targets ops w analysis (Suc i) ts (chunks @ fetch_target ops w analysis i t)"

text \<open>
  \<open>_fetch_general_small_probe\<close>: the loop over \<open>cands\<close>, a list of at most one company.
\<close>

definition probe_fetch :: "'v world \<Rightarrow> QueryAnalysis \<Rightarrow> nat \<Rightarrow> string \<Rightarrow> string \<Rightarrow> DocumentChunk list" where
  "probe_fetch w analysis i form c =
     (if form \<in> set [''10-K'', ''10-Q''] then
        (let sec = (if form = ''10-K'' then [''1A''] else [''part1item2'']) in
         fetch_structured_targeted w i c form sec analysis)
      else fetch_general_targeted w i c form analysis)"

definition probe_cands :: "QueryAnalysis \<Rightarrow> string list" where
  "probe_cands analysis =
     take 1 (if tickers analysis \<noteq> [] then tickers analysis else get_default_companies analysis)"

definition probe_form :: "QueryAnalysis \<Rightarrow> string" where
  "probe_form analysis =
     (case take 1 (document_types analysis) of [] \<Rightarrow> ''10-K'' | form # _ \<Rightarrow> form)"

definition fetch_general_small_probe :: "'v world \<Rightarrow> nat \<Rightarrow> QueryAnalysis \<Rightarrow> DocumentChunk list" where
  "fetch_general_small_probe w i analysis =
     (let cands = probe_cands analysis;
          form = probe_form analysis;
          chunks = fold (\<lambda>c chunks. chunks @ probe_fetch w analysis i form c) cands []
      in take 2 chunks)"

text \<open>
  \<open>fetch_targeted_filings\<close>. The fetches of the targets are numbered from 0; the probe, if
  it runs, is the next fetch.
\<close>

definition fetch_targeted_filings ::
  "('v, 'n) float_ops \<Rightarrow> 'v world \<Rightarrow> QueryAnalysis \<Rightarrow> bool \<Rightarrow> string \<Rightarrow> int
     \<Rightarrow> py_error + DocumentChunk list" where
  "fetch_targeted_filings ops w analysis allow_default fallback max_targets =
     (case determine_retrieval_strategy analysis allow_default of
        Inl e \<Rightarrow> Inl e
      | Inr strategy \<Rightarrow>
          (let ts = py_slice_to max_targets (targets strategy);
               chunks = run_targets ops w analysis 0 ts []
           in if chunks \<noteq> [] then Inr chunks
              else if fallback = ''general_small''
                   then Inr (fetch_general_small_probe w (length ts) analysis)
              else Inr []))"

section \<open>The per-question flow (qa\_system.py, answer\_question)\<close>

text \<open>
  What a call can raise: \<open>Exc msg\<close> is an exception of class \<open>Exception\<close> with
  \<open>str(e) = msg\<close>; \<open>BaseExc name\<close> is an exception outside class \<open>Exception\<close>, such as
  \<open>KeyboardInterrupt\<close>, \<open>SystemExit\<close> or \<open>asyncio.CancelledError\<close>.
\<close>

datatype raised = Exc string | BaseExc string

text \<open>
  The collaborators of the flow are parameters: the query analyser and the financial analyst
  (language-model agents), the company resolver (files on disk) and \<open>fetch_filings\<close>. A call
  of the analyser, the analyst or the resolver returns a value or raises, \<open>Inl\<close> of what it
  raised. The resolver returns the ticker of the company it found, if any.
\<close>

record services =
  query_analyzer :: "string \<Rightarrow> raised + QueryAnalysis"
  company_resolve :: "string \<Rightarrow> raised + string option"
  fetch_filings :: fetcher
  financial_analyst :: "string \<Rightarrow> DocumentChunk list \<Rightarrow> raised + AnswerWithSources"

text \<open>\<open>_validate_tickers\<close>: the comprehension resolves the tickers in order.\<close>

fun validate_tickers :: "(string \<Rightarrow> raised + string option) \<Rightarrow> string list \<Rightarrow> raised + string list" where
  "validate_tickers resolve [] = Inr []"
| "validate_tickers resolve (t # ts) =
     (case resolve (py_upper t) of
        Inl e \<Rightarrow> Inl e
      | Inr meta \<Rightarrow>
          (case validate_tickers resolve ts of
             Inl e \<Rightarrow> Inl e
           | Inr rest \<Rightarrow> Inr (case meta of None \<Rightarrow> rest | Some tk \<Rightarrow> tk # rest)))"

definition fallback_pool :: "string list" where
  "fallback_pool = [''AAPL'', ''MSFT'', ''JPM'', ''GOOGL'', ''AMZN'', ''META'', ''NVDA'']"

text \<open>\<open>_determine_companies\<close> with its default \<open>top_k = 3\<close>.\<close>

definition determine_companies ::
  "(string \<Rightarrow> raised + string option) \<Rightarrow> QueryAnalysis \<Rightarrow> raised + string list" where
  "determine_companies resolve analysis =
     (case validate_tickers resolve (tickers analysis) of
        Inl e \<Rightarrow> Inl e
      | Inr user \<Rightarrow>
          if user \<noteq> [] then Inr (take 3 user)
          else
            (case validate_tickers resolve (suggested_tickers analysis) of
               Inl e \<Rightarrow> Inl e
             | Inr suggested \<Rightarrow>
                 if suggested \<noteq> [] then Inr (take 3 suggested)
                 else
                   (case validate_tickers resolve fallback_pool of
                      Inl e \<Rightarrow> Inl e
                    | Inr pool \<Rightarrow> Inr (take 3 pool))))"

text \<open>The em dash of the source lines, as its three UTF-8 bytes.\<close>

definition em_dash :: string where
  "em_dash = [CHR 0xE2, CHR 0x80, CHR 0x94]"

text \<open>
  The text after the tag in a line of the allowed sources and of the citations:
  \<open>{ticker} {filing_type} {filing_date}, {section or 'Summary'} --- {source_url}\<close>.
\<close>

definition chunk_reference :: "DocumentChunk \<Rightarrow> string" where
  "chunk_reference chunk =
     ticker chunk @ '' '' @ filing_type chunk @ '' '' @ filing_date chunk @ '', ''
       @ section_or_summary (chunk_section chunk) @ '' '' @ em_dash @ '' '' @ source_url chunk"

definition allowed_lines_of :: "DocumentChunk list \<Rightarrow> string list" where
  "allowed_lines_of document_chunks =
     map (\<lambda>(i, chunk). ''- [C'' @ py_str i @ ''] '' @ chunk_reference chunk) (enumerate1 document_chunks)"

definition allowed_block_of :: "string list \<Rightarrow> string" where
  "allowed_block_of allowed_lines =
     ''ALLOWED SOURCES (use only these, cite inline as [C#]):'' @ newline
       @ join newline allowed_lines
       @ newline @ newline @ ''CITATION RULES:'' @ newline
       @ ''- Only cite items above (do not mention forms not present).'' @ newline
       @ ''- Each Evidence bullet should include a [C#] tag.'' @ newline"

text \<open>The note on the missing companies, appended when the list is not empty.\<close>

definition add_missing_note :: "string list \<Rightarrow> AnswerWithSources \<Rightarrow> AnswerWithSources" where
  "add_missing_note missing a =
     (if missing \<noteq> [] then
        a\<lparr> answer := answer a @ newline @ ''Note: No filings found for: '' @ join '', '' missing
                @ ''. These companies were excluded due to missing or unavailable filings.'' \<rparr>
      else a)"

text \<open>The citations block, appended to the renumbered text when there is a used id.\<close>

definition citation_lines_of :: "(nat \<rightharpoonup> DocumentChunk) \<Rightarrow> nat list \<Rightarrow> string list" where
  "citation_lines_of allowed_map original_ids =
     ['''', ''**Citations**''] @
     concat (map (\<lambda>(new_id, old_id).
                    case allowed_map old_id of
                      Some c \<Rightarrow> [''[C'' @ py_str new_id @ ''] '' @ chunk_reference c]
                    | None \<Rightarrow> [])
                 (enumerate1 original_ids))"

definition append_citations ::
  "(nat \<rightharpoonup> DocumentChunk) \<Rightarrow> nat list \<Rightarrow> AnswerWithSources \<Rightarrow> AnswerWithSources" where
  "append_citations allowed_map original_ids a =
     (if original_ids \<noteq> [] then
        a\<lparr> answer := answer a @ newline @ join newline (citation_lines_of allowed_map original_ids) \<rparr>
      else a)"

text \<open>\<open>", ".join(analysis.time_periods) or "Recent filings"\<close>.\<close>

definition time_period_text :: "string list \<Rightarrow> string" where
  "time_period_text periods = (if join '', '' periods = [] then ''Recent filings'' else join '', '' periods)"

text \<open>
  The body of the \<open>try\<close> of \<open>answer_question\<close>. It returns the state of the system object
  and either what was raised, which ended it, or the answer. \<open>fetch_filings\<close> handles the
  exceptions of class \<open>Exception\<close> of its requests itself and returns a list.
\<close>

definition answer_flow :: "services \<Rightarrow> string \<Rightarrow> qa_state \<Rightarrow> qa_state \<times> (raised + AnswerWithSources)" where
  "answer_flow sv question st =
     (case query_analyzer sv question of
        Inl e \<Rightarrow> (st, Inl e)
      | Inr analysis \<Rightarrow>
          (case determine_companies (company_resolve sv) analysis of
             Inl e \<Rightarrow> (st, Inl e)
           | Inr target_companies \<Rightarrow>
               (let (st1, document_chunks) = retrieve_documents (fetch_filings sv) target_companies analysis st;
                    allowed_map = allowed_map_of document_chunks;
                    allowed_block = allowed_block_of (allowed_lines_of document_chunks)
                in case financial_analyst sv (allowed_block @ newline @ question) document_chunks of
                     Inl e \<Rightarrow> (st1, Inl e)
                   | Inr model_answer \<Rightarrow>
                       (let a1 = add_missing_note (missing_companies st1) model_answer;
                            original_ids = parse_used_tags (answer a1);
                            a2 = normalize_citations allowed_map a1;
                            a3 = append_citations allowed_map original_ids a2
                        in (st1, Inr (a3\<lparr> companies_analyzed := target_companies,
                                          filing_types_used := document_types analysis,
                                          time_period_covered :=
                                            Some (time_period_text (time_periods analysis)) \<rparr>))))))"

text \<open>The answer built by the handler \<open>except Exception as e\<close>; the other fields have their defaults.\<close>

definition error_answer :: "string \<Rightarrow> AnswerWithSources" where
  "error_answer msg =
     default_answer\<lparr> answer := ''Error: '' @ msg, sources := [], ans_confidence_score := 0,
                     companies_analyzed := [], filing_types_used := [],
                     limitations := [''Internal error during analysis.''] \<rparr>"

text \<open>
  \<open>answer_question\<close>: the handler \<open>except Exception as e\<close> (line 156) catches the
  exceptions of class \<open>Exception\<close> and returns the error answer; anything else that the
  body raises passes through to the caller, \<open>Inl\<close> in the result.
\<close>

definition answer_question ::
  "services \<Rightarrow> string \<Rightarrow> qa_state \<Rightarrow> qa_state \<times> (raised + AnswerWithSources)" where
  "answer_question sv question st =
     (case answer_flow sv question st of
        (st', Inl (Exc msg)) \<Rightarrow> (st', Inr (error_answer msg))
      | (st', Inl (BaseExc name)) \<Rightarrow> (st', Inl (BaseExc name))
      | (st', Inr a) \<Rightarrow> (st', Inr a))"

section \<open>Auxiliary notions for the proofs\<close>

text \<open>
  These are not part of the program: well-formed digit groups, the first occurrences of a
  list in order, the digits a tag is rewritten to, a relabelling of pieces, and the 1-based
  position of an integer in the list of used ids.
\<close>

definition digits :: "string \<Rightarrow> bool" where
  "digits ds = (ds \<noteq> [] \<and> list_all is_digit ds)"

definition first_occurrences :: "'a list \<Rightarrow> 'a list" where
  "first_occurrences xs = rev (remdups (rev xs))"

definition new_digits :: "(nat \<rightharpoonup> nat) \<Rightarrow> string \<Rightarrow> string" where
  "new_digits mapping ds = (case mapping (py_int ds) of Some new \<Rightarrow> py_str new | None \<Rightarrow> ds)"

fun map_piece :: "(string \<Rightarrow> string) \<Rightarrow> piece \<Rightarrow> piece" where
  "map_piece g (Lit c) = Lit c"
| "map_piece g (Tag ds) = Tag (g ds)"

definition tag_digits :: "piece list \<Rightarrow> string list" where
  "tag_digits ps = concat (map (\<lambda>p. case p of Lit c \<Rightarrow> [] | Tag ds \<Rightarrow> [ds]) ps)"

abbreviation not_open :: "char \<Rightarrow> bool" where
  "not_open \<equiv> (\<lambda>x. x \<noteq> CHR ''['')"

definition tag_number :: "nat list \<Rightarrow> nat \<Rightarrow> nat" where
  "tag_number ids n = Suc (length (takeWhile (\<lambda>x. x \<noteq> n) ids))"

definition in_range :: "nat \<Rightarrow> nat \<Rightarrow> bool" where
  "in_range N i = (1 \<le> i \<and> i \<le> N)"

text \<open>Concrete evidence records for the examples: five records with ids \<open>c1\<close> to \<open>c5\<close>.\<close>

definition example_chunk :: "string \<Rightarrow> DocumentChunk" where
  "example_chunk cid =
     \<lparr> content = ''Risk factors text'', ticker = ''AAPL'', filing_type = ''10-K'',
       filing_date = ''2024-11-01'', chunk_section = Some ''Item 1A'', chunk_id = cid,
       source_url = ''https://www.sec.gov/'', page_number = None, confidence_score = 1 \<rparr>"

definition example_chunks :: "DocumentChunk list" where
  "example_chunks = map example_chunk [''c1'', ''c2'', ''c3'', ''c4'', ''c5'']"

text \<open>A query interpretation for the examples: tickers, document types, query type and keywords.\<close>

definition example_query :: "string list \<Rightarrow> string list \<Rightarrow> query_type_label \<Rightarrow> string list \<Rightarrow> QueryAnalysis" where
  "example_query ts dts qt kws =
     \<lparr> tickers = ts, time_periods = [], document_types = dts, query_type = qt, sectors = [],
       query_keywords = kws, complexity_score = 0.5, suggested_tickers = [], selection_reason = '''' \<rparr>"

text \<open>The chunks the cache of a state holds for a list of companies, in order.\<close>

definition cached_chunks :: "qa_state \<Rightarrow> string list \<Rightarrow> string option \<Rightarrow> string list \<Rightarrow> DocumentChunk list" where
  "cached_chunks st dts df cs =
     concat (map (\<lambda>c. case document_cache st (cache_key c dts df) of None \<Rightarrow> [] | Some v \<Rightarrow> v) cs)"

text \<open>An empty system state and a fetcher that finds one record for AAPL and nothing else.\<close>

definition empty_state :: qa_state where
  "empty_state = \<lparr> document_cache = Map.empty, missing_companies = [], fetch_calls = [] \<rparr>"

definition example_fetch :: fetcher where
  "example_fetch n company dts date_from =
     (if company = ''AAPL'' then [example_chunk ''c1''] else [])"

text \<open>
  A provider for the examples: the search finds one filing, the section extractor returns
  the given text, the insider service finds nothing.
\<close>

definition example_filing :: filing where
  "example_filing =
     \<lparr> linkToHtml = Str ''https://www.sec.gov/f.htm'', linkToTxt = Absent,
       filedAt = Str ''2024-11-01T16:30:00-04:00'', companyName = Str ''Apple Inc.'',
       filing_description = Str ''Form 10-K'', linkToFilingDetails = Str ''https://www.sec.gov/f.htm'' \<rparr>"

definition example_world :: "string \<Rightarrow> unit world" where
  "example_world body =
     \<lparr> search_post = (\<lambda>i q. Response 200 [example_filing]),
       extractor_get = (\<lambda>i link item. Response 200 body),
       insider_post = (\<lambda>i q. Response 200 []),
       default_date_from = ''2024-05-07'' \<rparr>"

text \<open>Number operations for the examples, which read no insider numbers.\<close>

definition example_ops :: "(unit, nat) float_ops" where
  "example_ops =
     \<lparr> to_float = (\<lambda>v. None), fmul = (*), fadd = (+), fzero = 0, fpositive = (\<lambda>n. 0 < n),
       fmt_grouped0 = py_str, fmt_fixed2 = py_str \<rparr>"

text \<open>Services whose query analyser raises what is given.\<close>

definition failing_services :: "raised \<Rightarrow> services" where
  "failing_services e =
     \<lparr> query_analyzer = (\<lambda>question. Inl e),
       company_resolve = (\<lambda>t. Inr (Some t)),
       fetch_filings = example_fetch,
       financial_analyst = (\<lambda>prompt deps. Inr default_answer) \<rparr>"

text \<open>A provider whose search finds one filing of a company with the given name.\<close>

definition named_filing :: "string \<Rightarrow> filing" where
  "named_filing name = example_filing\<lparr> companyName := Str name \<rparr>"

definition named_world :: "string \<Rightarrow> 'v world" where
  "named_world name =
     \<lparr> search_post = (\<lambda>i q. Response 200 [named_filing name]),
       extractor_get = (\<lambda>i link item. Response 200 []),
       insider_post = (\<lambda>i q. Response 200 []),
       default_date_from = ''2024-05-07'' \<rparr>"

section \<open>Lemmas on digits and scanning\<close>

lemma py_int_snoc: "py_int (ds @ [c]) = 10 * py_int ds + digit_val c"
  by (simp add: py_int_def)

lemma digit_val_digit_char: "d < 10 \<Longrightarrow> digit_val (digit_char d) = d"
  by (simp add: digit_val_def digit_char_def)

lemma is_digit_digit_char: "d < 10 \<Longrightarrow> is_digit (digit_char d)"
  by (simp add: is_digit_def digit_char_def)

lemma py_str_digits: "py_str n \<noteq> [] \<and> (\<forall>c \<in> set (py_str n). is_digit c)"
proof (induction n rule: py_str.induct)
  case (1 n)
  show ?case
  proof (cases "n < 10")
    case True
    then show ?thesis by (simp add: py_str.simps [of n] is_digit_digit_char)
  next
    case False
    with 1 show ?thesis by (simp add: py_str.simps [of n] is_digit_digit_char)
  qed
qed

lemma py_int_py_str: "py_int (py_str n) = n"
proof (induction n rule: py_str.induct)
  case (1 n)
  show ?case
  proof (cases "n < 10")
    case True
    then show ?thesis by (simp add: py_str.simps [of n] py_int_def digit_val_digit_char)
  next
    case False
    with 1 show ?thesis
      by (simp add: py_str.simps [of n] py_int_snoc digit_val_digit_char)
  qed
qed

lemma digits_py_str: "digits (py_str n)"
  using py_str_digits [of n] by (simp add: digits_def list_all_iff)

lemma not_digit_close: "\<not> is_digit CHR '']''"
  by (simp add: is_digit_def)

lemma not_digit_open: "\<not> is_digit CHR ''[''"
  by (simp add: is_digit_def)

lemma match_here_Some_iff:
  "match_here s = Some (ds, rest) \<longleftrightarrow> s = group0 ds @ rest \<and> digits ds"
proof
  assume m: "match_here s = Some (ds, rest)"
  have "\<exists>a b r. s = a # b # r"
  proof (cases s)
    case Nil
    with m show ?thesis by (simp add: match_here_def)
  next
    case (Cons a t)
    show ?thesis
    proof (cases t)
      case Nil
      with m Cons show ?thesis by (simp add: match_here_def)
    next
      case (Cons b r)
      with \<open>s = a # t\<close> show ?thesis by simp
    qed
  qed
  then obtain a b r where s: "s = a # b # r" by blast
  from m s have ab: "a = CHR ''[''" "b = CHR ''C''"
    by (auto simp: match_here_def split: if_splits)
  from m s ab obtain e where d: "dropWhile is_digit r = e # rest"
    and ds: "ds = takeWhile is_digit r" "ds \<noteq> []" and e: "e = CHR '']''"
    by (auto simp: match_here_def split: list.splits if_splits)
  have "r = takeWhile is_digit r @ dropWhile is_digit r" by simp
  with d ds e have r: "r = ds @ CHR '']'' # rest" by simp
  have "list_all is_digit ds" unfolding ds(1) list_all_iff
    by (auto dest: set_takeWhileD)
  with ds(2) have dg: "digits ds" by (simp add: digits_def)
  from s ab r have "s = group0 ds @ rest" by (simp add: group0_def)
  with dg show "s = group0 ds @ rest \<and> digits ds" by simp
next
  assume a: "s = group0 ds @ rest \<and> digits ds"
  then have all: "\<forall>c \<in> set ds. is_digit c" and ne: "ds \<noteq> []"
    by (auto simp: digits_def list_all_iff)
  have tw: "takeWhile is_digit (ds @ CHR '']'' # rest) = ds"
    using all by (simp add: takeWhile_append2 not_digit_close)
  have dw: "dropWhile is_digit (ds @ CHR '']'' # rest) = CHR '']'' # rest"
    using all by (simp add: dropWhile_append2 not_digit_close)
  from a have "s = CHR ''['' # CHR ''C'' # (ds @ CHR '']'' # rest)"
    by (simp add: group0_def)
  then show "match_here s = Some (ds, rest)"
    using tw dw ne by (simp add: match_here_def)
qed

lemma scan_tag: "digits ds \<Longrightarrow> scan (group0 ds @ rest) = Tag ds # scan rest"
proof -
  assume d: "digits ds"
  have m: "match_here (group0 ds @ rest) = Some (ds, rest)"
    using d by (simp add: match_here_Some_iff)
  obtain c cs where s: "group0 ds @ rest = c # cs"
    by (cases "group0 ds @ rest") (auto simp: group0_def)
  show ?thesis using m unfolding s by simp
qed

lemma scan_lit: "match_here (c # cs) = None \<Longrightarrow> scan (c # cs) = Lit c # scan cs"
  by simp

lemma re_sub_Nil [simp]: "re_sub f [] = []"
  by (simp add: re_sub_def)

lemma re_sub_tag: "digits ds \<Longrightarrow> re_sub f (group0 ds @ rest) = f ds @ re_sub f rest"
  by (simp add: re_sub_def scan_tag)

lemma re_sub_lit: "match_here (c # cs) = None \<Longrightarrow> re_sub f (c # cs) = c # re_sub f cs"
  by (simp add: re_sub_def)

lemma scan_induct [case_names Nil Tag Lit]:
  assumes "P []"
    and "\<And>ds rest. digits ds \<Longrightarrow> P rest \<Longrightarrow> P (group0 ds @ rest)"
    and "\<And>c cs. match_here (c # cs) = None \<Longrightarrow> P cs \<Longrightarrow> P (c # cs)"
  shows "P s"
proof (induction s rule: scan.induct)
  case 1
  show ?case by (rule assms(1))
next
  case (2 c cs)
  show ?case
  proof (cases "match_here (c # cs)")
    case None
    from 2(1) [OF None] have "P cs" .
    with None show ?thesis by (rule assms(3))
  next
    case (Some x)
    obtain ds rest where x: "x = (ds, rest)" by (cases x)
    with Some have m: "match_here (c # cs) = Some (ds, rest)" by simp
    then have eq: "c # cs = group0 ds @ rest" and d: "digits ds"
      by (simp_all add: match_here_Some_iff)
    from 2(2) [OF Some x [symmetric]] have "P rest" .
    with d have "P (group0 ds @ rest)" by (rule assms(2))
    with eq show ?thesis by simp
  qed
qed

lemma match_here_prefix:
  assumes "match_here (c # s) = None"
    and "takeWhile not_open s' = takeWhile not_open s"
  shows "match_here (c # s') = None"
proof (rule ccontr)
  assume "match_here (c # s') \<noteq> None"
  then obtain ds rest where m: "match_here (c # s') = Some (ds, rest)" by auto
  then have eq: "c # s' = group0 ds @ rest" and d: "digits ds"
    by (simp_all add: match_here_Some_iff)
  from eq have c: "c = CHR ''[''" and s': "s' = (CHR ''C'' # ds @ [CHR '']'']) @ rest"
    by (simp_all add: group0_def)
  have no: "\<forall>x \<in> set (CHR ''C'' # ds @ [CHR '']'']). not_open x"
    using d by (auto simp: digits_def list_all_iff not_digit_open)
  have "takeWhile not_open s' = (CHR ''C'' # ds @ [CHR '']'']) @ takeWhile not_open rest"
    unfolding s' using no by simp
  with assms(2) have tw: "takeWhile not_open s = (CHR ''C'' # ds @ [CHR '']'']) @ takeWhile not_open rest"
    by simp
  have "s = takeWhile not_open s @ dropWhile not_open s" by simp
  with tw have "s = (CHR ''C'' # ds @ [CHR '']'']) @ (takeWhile not_open rest @ dropWhile not_open s)"
    by (metis append.assoc)
  with c have "c # s = group0 ds @ (takeWhile not_open rest @ dropWhile not_open s)"
    by (simp add: group0_def)
  with d have "match_here (c # s) = Some (ds, takeWhile not_open rest @ dropWhile not_open s)"
    by (simp add: match_here_Some_iff)
  with assms(1) show False by simp
qed

lemma takeWhile_re_sub:
  assumes "\<And>ds. digits ds \<Longrightarrow> \<exists>r. f ds = CHR ''['' # r"
  shows "takeWhile not_open (re_sub f s) = takeWhile not_open s"
proof (induction s rule: scan_induct)
  case Nil
  show ?case by simp
next
  case (Tag ds rest)
  from assms [OF Tag(1)] obtain r where "f ds = CHR ''['' # r" ..
  moreover have "takeWhile not_open (group0 ds @ rest) = []"
    by (simp add: group0_def)
  ultimately show ?case using Tag(1) by (simp add: re_sub_tag)
next
  case (Lit c cs)
  then show ?case by (simp add: re_sub_lit)
qed

lemma scan_re_sub:
  assumes g: "\<And>ds. digits ds \<Longrightarrow> digits (g ds)"
  shows "scan (re_sub (\<lambda>ds. group0 (g ds)) s) = map (map_piece g) (scan s)"
proof (induction s rule: scan_induct)
  case Nil
  show ?case by simp
next
  case (Tag ds rest)
  then show ?case by (simp add: re_sub_tag scan_tag g)
next
  case (Lit c cs)
  have "takeWhile not_open (re_sub (\<lambda>ds. group0 (g ds)) cs) = takeWhile not_open cs"
    by (rule takeWhile_re_sub) (simp add: group0_def)
  with Lit(1) have "match_here (c # re_sub (\<lambda>ds. group0 (g ds)) cs) = None"
    by (rule match_here_prefix)
  with Lit show ?case by (simp add: re_sub_lit)
qed

lemma re_sub_group0: "re_sub group0 s = s"
  by (induction s rule: scan_induct) (simp_all add: re_sub_tag re_sub_lit)

section \<open>Lemmas on parsing, renumbering and source resolution\<close>

lemma first_occurrences_snoc:
  "first_occurrences (xs @ [y]) = (if y \<in> set xs then first_occurrences xs else first_occurrences xs @ [y])"
  by (simp add: first_occurrences_def)

lemma set_first_occurrences [simp]: "set (first_occurrences xs) = set xs"
  by (simp add: first_occurrences_def)

lemma distinct_first_occurrences [simp]: "distinct (first_occurrences xs)"
  by (simp add: first_occurrences_def)

lemma first_occurrences_Nil [simp]: "first_occurrences [] = []"
  by (simp add: first_occurrences_def)

lemma parse_loop_first_occurrences:
  "parse_loop gs (set xs) (first_occurrences xs) = first_occurrences (xs @ map py_int gs)"
proof (induction gs arbitrary: xs)
  case Nil
  show ?case by simp
next
  case (Cons g gs)
  have "parse_loop gs (set (xs @ [py_int g])) (first_occurrences (xs @ [py_int g]))
        = first_occurrences ((xs @ [py_int g]) @ map py_int gs)"
    by (rule Cons.IH)
  then have IH: "parse_loop gs (insert (py_int g) (set xs)) (first_occurrences (xs @ [py_int g]))
        = first_occurrences (xs @ py_int g # map py_int gs)"
    by simp
  show ?case
  proof (cases "py_int g \<in> set xs")
    case True
    with IH show ?thesis
      by (simp add: first_occurrences_snoc insert_absorb)
  next
    case False
    with IH show ?thesis
      by (simp add: first_occurrences_snoc)
  qed
qed

lemma parse_used_tags_eq:
  "parse_used_tags text = first_occurrences (map py_int (finditer text))"
  using parse_loop_first_occurrences [of "finditer text" "[]"]
  by (simp add: parse_used_tags_def)

lemma first_occurrences_map:
  "inj_on f (set xs) \<Longrightarrow> first_occurrences (map f xs) = map f (first_occurrences xs)"
proof (induction xs rule: rev_induct)
  case Nil
  show ?case by simp
next
  case (snoc x xs)
  then have inj: "inj_on f (set xs)" and xin: "\<And>y. y \<in> set xs \<Longrightarrow> f y = f x \<Longrightarrow> y = x"
    by (auto simp: inj_on_def)
  have "f x \<in> f ` set xs \<longleftrightarrow> x \<in> set xs"
    using xin by auto
  with snoc.IH [OF inj] show ?case
    by (simp add: first_occurrences_snoc)
qed

lemma enumerate1_snoc: "enumerate1 (xs @ [x]) = enumerate1 xs @ [(Suc (length xs), x)]"
proof -
  have "[1 ..< Suc (length (xs @ [x]))] = [1 ..< Suc (length xs)] @ [Suc (length xs)]"
    by simp
  moreover have "length [1 ..< Suc (length xs)] = length xs"
    by (simp only: length_upt diff_Suc_1)
  ultimately show ?thesis
    unfolding enumerate1_def by (simp only: zip_append zip.simps list.case)
qed

lemma renumber_mapping_Nil [simp]: "renumber_mapping [] = Map.empty"
  by (simp add: renumber_mapping_def enumerate1_def)

lemma renumber_mapping_snoc:
  "renumber_mapping (ids @ [x]) = (renumber_mapping ids)(x \<mapsto> Suc (length ids))"
  by (simp add: renumber_mapping_def enumerate1_snoc)

lemma renumber_mapping_None: "n \<notin> set ids \<Longrightarrow> renumber_mapping ids n = None"
  by (induction ids rule: rev_induct) (auto simp: renumber_mapping_snoc)

lemma renumber_mapping_nth:
  "distinct ids \<Longrightarrow> k < length ids \<Longrightarrow> renumber_mapping ids (ids ! k) = Some (Suc k)"
proof (induction ids rule: rev_induct)
  case Nil
  then show ?case by simp
next
  case (snoc x xs)
  show ?case
  proof (cases "k < length xs")
    case True
    with snoc have "renumber_mapping xs (xs ! k) = Some (Suc k)" by simp
    moreover from True snoc.prems have "xs ! k \<noteq> x" by auto
    ultimately show ?thesis using True
      by (simp add: renumber_mapping_snoc nth_append)
  next
    case False
    with snoc.prems have "k = length xs" by simp
    then show ?thesis by (simp add: renumber_mapping_snoc)
  qed
qed

lemma allowed_map_of_Nil [simp]: "allowed_map_of [] = Map.empty"
  by (simp add: allowed_map_of_def enumerate1_def)

lemma allowed_map_of_snoc:
  "allowed_map_of (cs @ [c]) = (allowed_map_of cs)(Suc (length cs) \<mapsto> c)"
  by (simp add: allowed_map_of_def enumerate1_snoc)

lemma allowed_map_of_eq:
  "allowed_map_of cs i = (if 1 \<le> i \<and> i \<le> length cs then Some (cs ! (i - 1)) else None)"
proof (induction cs rule: rev_induct)
  case Nil
  show ?case by simp
next
  case (snoc c cs)
  show ?case
  proof (cases "i = Suc (length cs)")
    case True
    then show ?thesis by (simp add: allowed_map_of_snoc)
  next
    case False
    then show ?thesis using snoc
      by (auto simp: allowed_map_of_snoc nth_append)
  qed
qed

lemma resolve_sources_eq:
  "resolve_sources am ids (srcs, used) =
     (srcs @ List.map_filter (\<lambda>i. map_option source_of_chunk (am i)) ids,
      used @ List.map_filter (\<lambda>i. map_option chunk_id (am i)) ids)"
proof (induction ids arbitrary: srcs used)
  case Nil
  show ?case by (simp add: List.map_filter_simps)
next
  case (Cons i ids)
  show ?case
    by (cases "am i") (simp_all add: Cons.IH List.map_filter_simps)
qed

lemma tag_number_nth:
  assumes d: "distinct ids" and k: "k < length ids"
  shows "tag_number ids (ids ! k) = Suc k"
proof -
  have "takeWhile (\<lambda>x. x \<noteq> ids ! k) ids = take k ids"
  proof (rule takeWhile_eq_take_P_nth)
    fix i assume "i < k" "i < length ids"
    with d k show "ids ! i \<noteq> ids ! k" by (simp add: nth_eq_iff_index_eq)
  next
    show "\<not> ids ! k \<noteq> ids ! k" by simp
  qed
  with k show ?thesis by (simp add: tag_number_def)
qed

lemma renumber_mapping_tag_number:
  assumes d: "distinct ids" and n: "n \<in> set ids"
  shows "renumber_mapping ids n = Some (tag_number ids n)"
proof -
  from n obtain k where k: "k < length ids" and nk: "ids ! k = n"
    by (auto simp: in_set_conv_nth)
  from renumber_mapping_nth [OF d k] tag_number_nth [OF d k] nk
  show ?thesis by simp
qed

lemma distinct_parse_used_tags: "distinct (parse_used_tags t)"
  by (simp add: parse_used_tags_eq)

lemma set_parse_used_tags: "set (parse_used_tags t) = py_int ` set (finditer t)"
  by (simp add: parse_used_tags_eq)

lemma replace_eq_group0: "replace m = (\<lambda>ds. group0 (new_digits m ds))"
  by (rule ext) (simp add: replace_def new_digits_def group0_def split: option.splits)

lemma digits_new_digits: "digits ds \<Longrightarrow> digits (new_digits m ds)"
  by (simp add: new_digits_def digits_py_str split: option.splits)

lemma finditer_eq: "finditer t = tag_digits (scan t)"
  by (simp add: finditer_def tag_digits_def)

lemma tag_digits_map_piece: "tag_digits (map (map_piece g) ps) = map g (tag_digits ps)"
proof (induction ps)
  case Nil
  show ?case by (simp add: tag_digits_def)
next
  case (Cons p ps)
  then show ?case by (cases p) (simp_all add: tag_digits_def)
qed

lemma finditer_re_sub_replace:
  "finditer (re_sub (replace m) t) = map (new_digits m) (finditer t)"
  by (simp add: finditer_eq replace_eq_group0 scan_re_sub digits_new_digits tag_digits_map_piece)

lemma re_sub_cong:
  "(\<And>ds. ds \<in> set (finditer t) \<Longrightarrow> f ds = g ds) \<Longrightarrow> re_sub f t = re_sub g t"
proof -
  assume a: "\<And>ds. ds \<in> set (finditer t) \<Longrightarrow> f ds = g ds"
  have "\<And>p. p \<in> set (scan t) \<Longrightarrow>
          (case p of Lit c \<Rightarrow> [c] | Tag ds \<Rightarrow> f ds) = (case p of Lit c \<Rightarrow> [c] | Tag ds \<Rightarrow> g ds)"
  proof -
    fix p assume p: "p \<in> set (scan t)"
    show "(case p of Lit c \<Rightarrow> [c] | Tag ds \<Rightarrow> f ds) = (case p of Lit c \<Rightarrow> [c] | Tag ds \<Rightarrow> g ds)"
    proof (cases p)
      case (Lit c)
      then show ?thesis by simp
    next
      case (Tag ds)
      with p have "ds \<in> set (finditer t)" by (force simp: finditer_def)
      with Tag a show ?thesis by simp
    qed
  qed
  then show ?thesis unfolding re_sub_def by (simp cong: map_cong)
qed

lemma replace_used_tag:
  assumes "ds \<in> set (finditer t)"
  shows "replace (renumber_mapping (parse_used_tags t)) ds
           = group0 (py_str (tag_number (parse_used_tags t) (py_int ds)))"
proof -
  from assms have "py_int ds \<in> set (parse_used_tags t)"
    by (simp add: set_parse_used_tags)
  then have "renumber_mapping (parse_used_tags t) (py_int ds)
               = Some (tag_number (parse_used_tags t) (py_int ds))"
    by (rule renumber_mapping_tag_number [OF distinct_parse_used_tags])
  then show ?thesis by (simp add: replace_def group0_def)
qed

lemma compact_renumber_text:
  "fst (compact_renumber t (parse_used_tags t))
     = re_sub (\<lambda>ds. group0 (py_str (tag_number (parse_used_tags t) (py_int ds)))) t"
  unfolding compact_renumber_def Let_def fst_conv
  by (rule re_sub_cong) (rule replace_used_tag)

lemma sources_eq:
  "fst (resolve_sources (allowed_map_of chunks) ids ([], []))
     = map (\<lambda>i. source_of_chunk (chunks ! (i - 1))) (filter (in_range (length chunks)) ids)"
proof -
  have "List.map_filter (\<lambda>i. map_option source_of_chunk (allowed_map_of chunks i)) ids
      = map (\<lambda>i. source_of_chunk (chunks ! (i - 1))) (filter (in_range (length chunks)) ids)"
    by (induction ids) (simp_all add: List.map_filter_simps allowed_map_of_eq in_range_def)
  then show ?thesis by (simp add: resolve_sources_eq)
qed

lemma normalize_answer:
  "answer (normalize_citations am a) = fst (compact_renumber (answer a) (parse_used_tags (answer a)))"
  by (simp add: normalize_citations_def Let_def split: prod.splits)

lemma normalize_sources:
  "sources (normalize_citations am a) = fst (resolve_sources am (parse_used_tags (answer a)) ([], []))"
  by (simp add: normalize_citations_def Let_def split: prod.splits)

lemma new_digits_used_tag:
  assumes "ds \<in> set (finditer t)"
  shows "new_digits (renumber_mapping (parse_used_tags t)) ds
           = py_str (tag_number (parse_used_tags t) (py_int ds))"
proof -
  from assms have "py_int ds \<in> set (parse_used_tags t)"
    by (simp add: set_parse_used_tags)
  then have "renumber_mapping (parse_used_tags t) (py_int ds)
               = Some (tag_number (parse_used_tags t) (py_int ds))"
    by (rule renumber_mapping_tag_number [OF distinct_parse_used_tags])
  then show ?thesis by (simp add: new_digits_def)
qed

lemma map_tag_number_ids:
  assumes "distinct ids"
  shows "map (tag_number ids) ids = [1 ..< Suc (length ids)]"
proof (rule nth_equalityI)
  show "length (map (tag_number ids) ids) = length [1 ..< Suc (length ids)]"
    by (simp only: length_map length_upt diff_Suc_1)
next
  fix i assume "i < length (map (tag_number ids) ids)"
  then have i: "i < length ids" by simp
  then have "[1 ..< Suc (length ids)] ! i = Suc i"
    by (simp del: upt_Suc)
  with i assms show "map (tag_number ids) ids ! i = [1 ..< Suc (length ids)] ! i"
    by (simp add: tag_number_nth)
qed

lemma inj_on_tag_number:
  assumes "distinct ids"
  shows "inj_on (tag_number ids) (set ids)"
proof (rule inj_onI)
  fix x y assume "x \<in> set ids" "y \<in> set ids" and eq: "tag_number ids x = tag_number ids y"
  then obtain i j where i: "i < length ids" "ids ! i = x" and j: "j < length ids" "ids ! j = y"
    by (auto simp: in_set_conv_nth)
  from tag_number_nth [OF assms i(1)] tag_number_nth [OF assms j(1)] i j eq
  have "i = j" by simp
  with i j show "x = y" by simp
qed

lemma parse_used_tags_renumbered:
  "parse_used_tags (fst (compact_renumber t (parse_used_tags t)))
     = [1 ..< Suc (length (parse_used_tags t))]"
proof -
  let ?ids = "parse_used_tags t"
  let ?m = "renumber_mapping ?ids"
  let ?xs = "map py_int (finditer t)"
  have t': "fst (compact_renumber t ?ids) = re_sub (replace ?m) t"
    by (simp add: compact_renumber_def Let_def)
  have "map py_int (finditer (re_sub (replace ?m) t)) = map (tag_number ?ids) ?xs"
    by (simp add: finditer_re_sub_replace new_digits_used_tag py_int_py_str)
  then have "parse_used_tags (re_sub (replace ?m) t) = first_occurrences (map (tag_number ?ids) ?xs)"
    by (simp add: parse_used_tags_eq)
  also have "\<dots> = map (tag_number ?ids) (first_occurrences ?xs)"
  proof (rule first_occurrences_map)
    have "set ?xs = set ?ids" by (simp add: parse_used_tags_eq)
    with inj_on_tag_number [OF distinct_parse_used_tags, of t]
    show "inj_on (tag_number ?ids) (set ?xs)" by simp
  qed
  also have "first_occurrences ?xs = ?ids" by (simp add: parse_used_tags_eq)
  also have "map (tag_number ?ids) ?ids = [1 ..< Suc (length ?ids)]"
    by (rule map_tag_number_ids) (rule distinct_parse_used_tags)
  finally show ?thesis by (simp only: t')
qed

lemma renumber_mapping_upt:
  assumes "n \<in> set [1 ..< Suc k]"
  shows "renumber_mapping [1 ..< Suc k] n = Some n"
proof -
  from assms have n: "1 \<le> n" "n \<le> k" by auto
  then have lt: "n - 1 < length [1 ..< Suc k]" by (simp del: upt_Suc)
  have nth: "[1 ..< Suc k] ! (n - 1) = n"
    using n by (simp del: upt_Suc)
  have "renumber_mapping [1 ..< Suc k] ([1 ..< Suc k] ! (n - 1)) = Some (Suc (n - 1))"
    by (rule renumber_mapping_nth [OF _ lt]) simp
  with nth n show ?thesis by simp
qed

lemma compact_renumber_fixed:
  "fst (compact_renumber (fst (compact_renumber t (parse_used_tags t)))
          [1 ..< Suc (length (parse_used_tags t))])
     = fst (compact_renumber t (parse_used_tags t))"
proof -
  let ?ids = "parse_used_tags t"
  let ?m = "renumber_mapping ?ids"
  let ?m' = "renumber_mapping [1 ..< Suc (length ?ids)]"
  let ?t' = "re_sub (replace ?m) t"
  have t': "fst (compact_renumber t ?ids) = ?t'"
    by (simp add: compact_renumber_def Let_def)
  have "re_sub (replace ?m') ?t' = re_sub group0 ?t'"
  proof (rule re_sub_cong)
    fix ds assume "ds \<in> set (finditer ?t')"
    then obtain ds0 where ds0: "ds0 \<in> set (finditer t)" and ds: "ds = new_digits ?m ds0"
      by (auto simp: finditer_re_sub_replace)
    let ?j = "tag_number ?ids (py_int ds0)"
    from ds ds0 have dsj: "ds = py_str ?j" by (simp add: new_digits_used_tag)
    from ds0 have "py_int ds0 \<in> set ?ids" by (simp add: set_parse_used_tags)
    then have "?j \<in> tag_number ?ids ` set ?ids" by (rule imageI)
    also have "tag_number ?ids ` set ?ids = set (map (tag_number ?ids) ?ids)" by simp
    also have "\<dots> = set [1 ..< Suc (length ?ids)]"
      by (simp only: map_tag_number_ids [OF distinct_parse_used_tags])
    finally have "?m' ?j = Some ?j" by (rule renumber_mapping_upt)
    with dsj show "replace ?m' ds = group0 ds"
      by (simp add: replace_def group0_def py_int_py_str)
  qed
  then have "re_sub (replace ?m') ?t' = ?t'" by (simp add: re_sub_group0)
  then show ?thesis by (simp add: t' compact_renumber_def Let_def)
qed



lemma sources_all_in_range:
  assumes "\<forall>i \<in> set ids. in_range N i"
  shows "filter (in_range N) ids = ids"
  using assms by (simp add: filter_id_conv)

section \<open>Lemmas on the retrieval strategy\<close>

lemma get_default_companies_cases:
  "get_default_companies analysis \<in> {[''JPM''], [''JNJ''], [''AAPL'']}"
  by (simp add: get_default_companies_def Let_def)

lemma strategy_companies_nonempty: "strategy_companies analysis \<noteq> []"
  using get_default_companies_cases [of analysis]
  by (auto simp: strategy_companies_def)

section \<open>Lemmas on the evidence cache\<close>

lemma retrieve_loop_cache_mono:
  "document_cache st k = Some v \<Longrightarrow>
   document_cache (fst (retrieve_loop fetch dts df cs (st, acc))) k = Some v"
proof (induction cs arbitrary: st acc)
  case Nil
  then show ?case by simp
next
  case (Cons c cs)
  show ?case
  proof (cases "document_cache st (cache_key c dts df)")
    case (Some cached)
    with Cons show ?thesis by simp
  next
    case None
    with Cons.prems have ne: "k \<noteq> cache_key c dts df" by auto
    show ?thesis
    proof (cases "fetch (length (fetch_calls st)) c dts df = []")
      case True
      with None show ?thesis using Cons.prems by (simp add: Let_def Cons.IH)
    next
      case False
      with None ne show ?thesis using Cons.prems by (simp add: Let_def Cons.IH)
    qed
  qed
qed

lemma retrieve_loop_nonempty_inv:
  "(\<forall>k v. document_cache st k = Some v \<longrightarrow> v \<noteq> []) \<Longrightarrow>
   (\<forall>k v. document_cache (fst (retrieve_loop fetch dts df cs (st, acc))) k = Some v \<longrightarrow> v \<noteq> [])"
proof (induction cs arbitrary: st acc)
  case Nil
  then show ?case by simp
next
  case (Cons c cs)
  show ?case
  proof (cases "document_cache st (cache_key c dts df)")
    case (Some cached)
    with Cons show ?thesis by simp
  next
    case None
    show ?thesis
    proof (cases "fetch (length (fetch_calls st)) c dts df = []")
      case True
      have "\<forall>k v. document_cache (fst (retrieve_loop fetch dts df cs
              (st\<lparr>fetch_calls := fetch_calls st @ [(c, dts, df)],
                  missing_companies := missing_companies st @ [c]\<rparr>, acc))) k = Some v \<longrightarrow> v \<noteq> []"
        by (rule Cons.IH) (use Cons.prems in simp)
      with None True show ?thesis by (simp add: Let_def)
    next
      case False
      have "\<forall>k v. document_cache (fst (retrieve_loop fetch dts df cs
              (st\<lparr>fetch_calls := fetch_calls st @ [(c, dts, df)],
                  document_cache := (document_cache st)(cache_key c dts df \<mapsto> fetch (length (fetch_calls st)) c dts df)\<rparr>,
               acc @ fetch (length (fetch_calls st)) c dts df))) k = Some v \<longrightarrow> v \<noteq> []"
        by (rule Cons.IH) (use Cons.prems False in simp)
      with None False show ?thesis by (simp add: Let_def)
    qed
  qed
qed

lemma retrieve_loop_missing_grows:
  "length (missing_companies st) \<le> length (missing_companies (fst (retrieve_loop fetch dts df cs (st, acc))))"
proof (induction cs arbitrary: st acc)
  case Nil
  show ?case by simp
next
  case (Cons c cs)
  show ?case
  proof (cases "document_cache st (cache_key c dts df)")
    case (Some cached)
    with Cons show ?thesis by simp
  next
    case None
    show ?thesis
    proof (cases "fetch (length (fetch_calls st)) c dts df = []")
      case True
      have "length (missing_companies (st\<lparr>fetch_calls := fetch_calls st @ [(c, dts, df)],
                  missing_companies := missing_companies st @ [c]\<rparr>))
            \<le> length (missing_companies (fst (retrieve_loop fetch dts df cs
              (st\<lparr>fetch_calls := fetch_calls st @ [(c, dts, df)],
                  missing_companies := missing_companies st @ [c]\<rparr>, acc))))"
        by (rule Cons.IH)
      with None True show ?thesis by (simp add: Let_def)
    next
      case False
      have "length (missing_companies (st\<lparr>fetch_calls := fetch_calls st @ [(c, dts, df)],
                  document_cache := (document_cache st)(cache_key c dts df \<mapsto> fetch (length (fetch_calls st)) c dts df)\<rparr>))
            \<le> length (missing_companies (fst (retrieve_loop fetch dts df cs
              (st\<lparr>fetch_calls := fetch_calls st @ [(c, dts, df)],
                  document_cache := (document_cache st)(cache_key c dts df \<mapsto> fetch (length (fetch_calls st)) c dts df)\<rparr>,
               acc @ fetch (length (fetch_calls st)) c dts df))))"
        by (rule Cons.IH)
      with None False show ?thesis by (simp add: Let_def)
    qed
  qed
qed

lemma retrieve_loop_all_cached:
  "(\<forall>c \<in> set cs. document_cache st (cache_key c dts df) \<noteq> None) \<Longrightarrow>
   retrieve_loop fetch dts df cs (st, acc) = (st, acc @ cached_chunks st dts df cs)"
proof (induction cs arbitrary: acc)
  case Nil
  show ?case by (simp add: cached_chunks_def)
next
  case (Cons c cs)
  then obtain v where v: "document_cache st (cache_key c dts df) = Some v" by auto
  from Cons have "retrieve_loop fetch dts df cs (st, acc @ v) = (st, (acc @ v) @ cached_chunks st dts df cs)"
    by simp
  with v show ?case by (simp add: cached_chunks_def)
qed

lemma retrieve_loop_no_missing:
  assumes "length (missing_companies (fst (retrieve_loop fetch dts df cs (st, acc)))) = length (missing_companies st)"
  shows "(\<forall>c \<in> set cs. document_cache (fst (retrieve_loop fetch dts df cs (st, acc))) (cache_key c dts df) \<noteq> None) \<and>
         snd (retrieve_loop fetch dts df cs (st, acc))
           = acc @ cached_chunks (fst (retrieve_loop fetch dts df cs (st, acc))) dts df cs"
  using assms
proof (induction cs arbitrary: st acc)
  case Nil
  show ?case by (simp add: cached_chunks_def)
next
  case (Cons c cs)
  let ?k = "cache_key c dts df"
  show ?case
  proof (cases "document_cache st ?k")
    case (Some cached)
    let ?r = "retrieve_loop fetch dts df cs (st, acc @ cached)"
    have eq: "retrieve_loop fetch dts df (c # cs) (st, acc) = ?r"
      using Some by simp
    from Cons.prems eq have "length (missing_companies (fst ?r)) = length (missing_companies st)" by simp
    from Cons.IH [OF this]
    have ih: "(\<forall>c \<in> set cs. document_cache (fst ?r) (cache_key c dts df) \<noteq> None)"
      "snd ?r = (acc @ cached) @ cached_chunks (fst ?r) dts df cs" by simp_all
    have k: "document_cache (fst ?r) ?k = Some cached"
      using Some by (rule retrieve_loop_cache_mono)
    from ih k show ?thesis unfolding eq by (simp add: cached_chunks_def)
  next
    case None
    let ?f = "fetch (length (fetch_calls st)) c dts df"
    show ?thesis
    proof (cases "?f = []")
      case True
      let ?st1 = "st\<lparr>fetch_calls := fetch_calls st @ [(c, dts, df)],
                  missing_companies := missing_companies st @ [c]\<rparr>"
      have eq: "retrieve_loop fetch dts df (c # cs) (st, acc) = retrieve_loop fetch dts df cs (?st1, acc)"
        using None True by (simp add: Let_def)
      have "length (missing_companies ?st1) \<le> length (missing_companies (fst (retrieve_loop fetch dts df cs (?st1, acc))))"
        by (rule retrieve_loop_missing_grows)
      with Cons.prems eq have False by simp
      then show ?thesis ..
    next
      case False
      let ?st1 = "st\<lparr>fetch_calls := fetch_calls st @ [(c, dts, df)],
                  document_cache := (document_cache st)(?k \<mapsto> ?f)\<rparr>"
      let ?r = "retrieve_loop fetch dts df cs (?st1, acc @ ?f)"
      have eq: "retrieve_loop fetch dts df (c # cs) (st, acc) = ?r"
        using None False by (simp add: Let_def)
      from Cons.prems eq have "length (missing_companies (fst ?r)) = length (missing_companies ?st1)" by simp
      from Cons.IH [OF this]
      have ih: "(\<forall>c \<in> set cs. document_cache (fst ?r) (cache_key c dts df) \<noteq> None)"
        "snd ?r = (acc @ ?f) @ cached_chunks (fst ?r) dts df cs" by simp_all
      have "document_cache ?st1 ?k = Some ?f" by simp
      then have k: "document_cache (fst ?r) ?k = Some ?f"
        by (rule retrieve_loop_cache_mono)
      from ih k show ?thesis unfolding eq by (simp add: cached_chunks_def)
    qed
  qed
qed

lemma retrieve_documents_hit:
  assumes "document_cache st (cache_key company (effective_document_types analysis)
             (date_from_of (time_periods analysis))) = Some cached"
  shows "retrieve_documents fetch [company] analysis st = (st\<lparr>missing_companies := []\<rparr>, cached)"
  using assms by (simp add: retrieve_documents_def Let_def)

lemma retrieve_documents_store:
  assumes "document_cache st (cache_key company (effective_document_types analysis)
             (date_from_of (time_periods analysis))) = None"
    and "fetch (length (fetch_calls st)) company (effective_document_types analysis)
             (date_from_of (time_periods analysis)) \<noteq> []"
  shows "retrieve_documents fetch [company] analysis st =
           (st\<lparr> missing_companies := [],
                fetch_calls := fetch_calls st @ [(company, effective_document_types analysis,
                                                   date_from_of (time_periods analysis))],
                document_cache := (document_cache st)
                   (cache_key company (effective_document_types analysis) (date_from_of (time_periods analysis))
                      \<mapsto> fetch (length (fetch_calls st)) company (effective_document_types analysis)
                               (date_from_of (time_periods analysis))) \<rparr>,
            fetch (length (fetch_calls st)) company (effective_document_types analysis)
                               (date_from_of (time_periods analysis)))"
  using assms by (simp add: retrieve_documents_def Let_def)

lemma retrieve_documents_missing:
  assumes "document_cache st (cache_key company (effective_document_types analysis)
             (date_from_of (time_periods analysis))) = None"
    and "fetch (length (fetch_calls st)) company (effective_document_types analysis)
             (date_from_of (time_periods analysis)) = []"
  shows "retrieve_documents fetch [company] analysis st =
           (st\<lparr> missing_companies := [company],
                fetch_calls := fetch_calls st @ [(company, effective_document_types analysis,
                                                   date_from_of (time_periods analysis))] \<rparr>, [])"
  using assms by (simp add: retrieve_documents_def Let_def)

lemma retrieve_documents_again:
  assumes "missing_companies (fst (retrieve_documents fetch companies analysis st)) = []"
  shows "retrieve_documents fetch_again companies analysis (fst (retrieve_documents fetch companies analysis st))
           = retrieve_documents fetch companies analysis st"
proof -
  let ?dts = "effective_document_types analysis"
  let ?df = "date_from_of (time_periods analysis)"
  let ?st0 = "st\<lparr>missing_companies := []\<rparr>"
  let ?r = "retrieve_loop fetch ?dts ?df companies (?st0, [])"
  have r: "retrieve_documents fetch companies analysis st = ?r"
    by (simp add: retrieve_documents_def Let_def)
  from assms r have m: "missing_companies (fst ?r) = []" by simp
  then have "length (missing_companies (fst ?r)) = length (missing_companies ?st0)" by simp
  from retrieve_loop_no_missing [OF this]
  have all: "\<forall>c \<in> set companies. document_cache (fst ?r) (cache_key c ?dts ?df) \<noteq> None"
    and out: "snd ?r = cached_chunks (fst ?r) ?dts ?df companies" by simp_all
  from m have reset: "(fst ?r)\<lparr>missing_companies := []\<rparr> = fst ?r" by simp
  have "retrieve_documents fetch_again companies analysis (fst ?r)
          = retrieve_loop fetch_again ?dts ?df companies (fst ?r, [])"
    by (simp add: retrieve_documents_def Let_def reset)
  also have "\<dots> = (fst ?r, [] @ cached_chunks (fst ?r) ?dts ?df companies)"
    using all by (rule retrieve_loop_all_cached)
  also have "\<dots> = ?r" using out by (simp add: prod_eq_iff)
  finally show ?thesis by (simp only: r)
qed

section \<open>Lemmas on the targeted fetchers\<close>

lemma truncate_text_length:
  "length (truncate_text text) = (if length text > 1500 then 1503 else length text)"
  by (simp add: truncate_text_def)

lemma general_content_length:
  "length (general_content form company date desc)
     = length form + length company + length date + length desc + 96"
  by (simp add: general_content_def newline_def)

lemma fetch_structured_body_content:
  assumes "fetch_structured_body w i tkr form sections analysis = Inr chunks" and "c \<in> set chunks"
  shows "200 \<le> length (content c) \<and> length (content c) \<le> 1503"
  using assms
  by (auto simp: fetch_structured_body_def Let_def truncate_text_length
      split: http.splits list.splits option.splits sum.splits if_splits)

lemma fetch_structured_content:
  assumes "c \<in> set (fetch_structured_targeted w i tkr form sections analysis)"
  shows "200 \<le> length (content c) \<and> length (content c) \<le> 1503"
proof (cases "fetch_structured_body w i tkr form sections analysis")
  case (Inl e)
  with assms show ?thesis by (simp add: fetch_structured_targeted_def)
next
  case (Inr chunks)
  with assms have "c \<in> set chunks" by (simp add: fetch_structured_targeted_def)
  with Inr show ?thesis by (rule fetch_structured_body_content)
qed

lemma fetch_insider_body_content:
  assumes "fetch_insider_body ops w i tkr form analysis = Inr chunks" and "c \<in> set chunks"
  shows "content c \<noteq> [] \<and> length (content c) \<le> 1200"
  using assms
  by (auto simp: fetch_insider_body_def Let_def
      split: http.splits list.splits option.splits sum.splits if_splits prod.splits)

lemma fetch_insider_content:
  assumes "c \<in> set (fetch_insider_targeted ops w i tkr form analysis)"
  shows "1 \<le> length (content c) \<and> length (content c) \<le> 1200"
proof (cases "fetch_insider_body ops w i tkr form analysis")
  case (Inl e)
  with assms show ?thesis by (simp add: fetch_insider_targeted_def)
next
  case (Inr chunks)
  with assms have "c \<in> set chunks" by (simp add: fetch_insider_targeted_def)
  with Inr have "content c \<noteq> [] \<and> length (content c) \<le> 1200"
    by (rule fetch_insider_body_content)
  then show ?thesis by (cases "content c") simp_all
qed

lemma fetch_general_body_content:
  assumes "fetch_general_body w i tkr form analysis = Inr chunks" and "c \<in> set chunks"
  shows "96 \<le> length (content c)"
  using assms
  by (auto simp: fetch_general_body_def Let_def general_content_length
      split: http.splits list.splits option.splits sum.splits if_splits)

lemma fetch_general_content:
  assumes "c \<in> set (fetch_general_targeted w i tkr form analysis)"
  shows "96 \<le> length (content c)"
proof (cases "fetch_general_body w i tkr form analysis")
  case (Inl e)
  with assms show ?thesis by (simp add: fetch_general_targeted_def)
next
  case (Inr chunks)
  with assms have "c \<in> set chunks" by (simp add: fetch_general_targeted_def)
  with Inr show ?thesis by (rule fetch_general_body_content)
qed

lemma py_strip_replicate:
  "\<not> is_space x \<Longrightarrow> py_strip (replicate n x) = replicate n x"
  by (simp add: py_strip_def dropWhile_replicate)

lemma not_space_x: "\<not> is_space CHR ''x''"
  by (simp add: is_space_def)

lemma fetch_target_content:
  assumes "c \<in> set (fetch_target ops w analysis i t)"
  shows "1 \<le> length (content c)"
proof -
  let ?f = "target_filing_type t"
  consider (ins) "c \<in> set (fetch_insider_targeted ops w i (target_ticker t) ?f analysis)"
    | (str) "c \<in> set (fetch_structured_targeted w i (target_ticker t) ?f (take 1 (target_sections t)) analysis)"
    | (gen) "c \<in> set (fetch_general_targeted w i (target_ticker t) ?f analysis)"
    using assms by (auto simp: fetch_target_def Let_def split: if_splits)
  then show ?thesis
  proof cases
    case ins
    then show ?thesis using fetch_insider_content by blast
  next
    case str
    from fetch_structured_content [OF str] show ?thesis by simp
  next
    case gen
    from fetch_general_content [OF gen] show ?thesis by simp
  qed
qed

lemma fetch_structured_extracted:
  assumes s: "search_post w i (search_query tkr form) = Response 200 (f # fs)"
    and l: "filing_link f = Some link"
    and e: "extractor_get w i link sec = Response 200 body"
  shows "(length (py_strip body) < 200 \<longrightarrow>
            fetch_structured_targeted w i tkr form (sec # secs) analysis = []) \<and>
         (200 \<le> length (py_strip body) \<and> filedAt f \<noteq> Null \<longrightarrow>
            map content (fetch_structured_targeted w i tkr form (sec # secs) analysis)
              = [truncate_text (py_strip body)])"
  using s l e
  by (auto simp: fetch_structured_targeted_def fetch_structured_body_def Let_def slice_field_def
      split: jfield.splits)

lemma fetch_structured_null_date:
  assumes s: "search_post w i (search_query tkr form) = Response 200 (f # fs)"
    and l: "filing_link f = Some link"
    and e: "extractor_get w i link sec = Response 200 body"
    and n: "filedAt f = Null"
  shows "fetch_structured_targeted w i tkr form (sec # secs) analysis = []"
  using s l e n
  by (simp add: fetch_structured_targeted_def fetch_structured_body_def Let_def slice_field_def)

lemma slice_field_length: "slice_field n dflt f = Inr s \<Longrightarrow> length s \<le> n"
  by (auto simp: slice_field_def split: jfield.splits)

lemma fetch_general_exact:
  assumes s: "search_post w i (search_query tkr form) = Response 200 (f # fs)"
    and d: "slice_field 10 [] (filedAt f) = Inr date"
    and de: "slice_field 180 (form @ '' filing'') (filing_description f) = Inr desc"
    and u: "str_field [] (linkToFilingDetails f) = Inr url"
  shows "map content (fetch_general_targeted w i tkr form analysis)
           = [general_content form (fmt_field ''Unknown Company'' (companyName f)) date desc]"
  using s d de u
  by (simp add: fetch_general_targeted_def fetch_general_body_def Let_def)

lemma named_world_general:
  "map content (fetch_general_targeted (named_world name) i tkr form analysis)
     = [general_content form name ''2024-11-01'' ''Form 10-K'']"
proof -
  have s: "search_post (named_world name) i (search_query tkr form) = Response 200 (named_filing name # [])"
    by (simp add: named_world_def)
  have d: "slice_field 10 [] (filedAt (named_filing name)) = Inr ''2024-11-01''"
    by (simp add: slice_field_def named_filing_def example_filing_def)
  have de: "slice_field 180 (form @ '' filing'') (filing_description (named_filing name)) = Inr ''Form 10-K''"
    by (simp add: slice_field_def named_filing_def example_filing_def)
  have u: "str_field [] (linkToFilingDetails (named_filing name)) = Inr ''https://www.sec.gov/f.htm''"
    by (simp add: str_field_def named_filing_def example_filing_def)
  from fetch_general_exact [OF s d de u, of analysis]
  show ?thesis by (simp add: fmt_field_def named_filing_def)
qed

lemma general_unbounded:
  "\<exists>w :: 'v world. \<exists>c \<in> set (fetch_general_targeted w i tkr form analysis). B < length (content c)"
proof -
  let ?w = "named_world (replicate B CHR ''x'') :: 'v world"
  let ?r = "fetch_general_targeted ?w i tkr form analysis"
  have m: "map content ?r = [general_content form (replicate B CHR ''x'') ''2024-11-01'' ''Form 10-K'']"
    by (rule named_world_general)
  then obtain c where r: "?r = [c]" by (cases ?r) auto
  with m have "content c = general_content form (replicate B CHR ''x'') ''2024-11-01'' ''Form 10-K''"
    by simp
  then have "B < length (content c)" by (simp add: general_content_length)
  with r have "\<exists>c \<in> set ?r. B < length (content c)" by simp
  then show ?thesis by (rule exI)
qed

section \<open>Lemmas on the fallback controller\<close>

lemma run_targets_concat:
  "run_targets ops w analysis i ts chunks
     = chunks @ concat (map (\<lambda>(j, t). fetch_target ops w analysis j t) (zip [i ..< i + length ts] ts))"
proof (induction ts arbitrary: i chunks)
  case Nil
  show ?case by simp
next
  case (Cons t ts)
  have "[i ..< i + length (t # ts)] = i # [Suc i ..< i + length (t # ts)]"
    by (rule upt_conv_Cons) simp
  moreover have "i + length (t # ts) = Suc i + length ts" by simp
  ultimately have u: "[i ..< i + length (t # ts)] = i # [Suc i ..< Suc i + length ts]"
    by (simp only:)
  have "run_targets ops w analysis i (t # ts) chunks
          = run_targets ops w analysis (Suc i) ts (chunks @ fetch_target ops w analysis i t)"
    by simp
  also have "\<dots> = (chunks @ fetch_target ops w analysis i t) @
      concat (map (\<lambda>(j, t). fetch_target ops w analysis j t) (zip [Suc i ..< Suc i + length ts] ts))"
    by (rule Cons.IH)
  also have "\<dots> = chunks @ concat (map (\<lambda>(j, t). fetch_target ops w analysis j t)
      (zip (i # [Suc i ..< Suc i + length ts]) (t # ts)))"
    by simp
  finally show ?case by (simp only: u)
qed

lemma probe_cands_single: "\<exists>c. probe_cands analysis = [c]"
proof (cases "tickers analysis")
  case Nil
  with get_default_companies_cases [of analysis] show ?thesis
    by (auto simp: probe_cands_def)
next
  case (Cons c cs)
  then show ?thesis by (simp add: probe_cands_def)
qed

lemma probe_single_fetch:
  "probe_cands analysis = [c] \<Longrightarrow>
   fetch_general_small_probe w i analysis = take 2 (probe_fetch w analysis i (probe_form analysis) c)"
  by (simp add: fetch_general_small_probe_def Let_def)

lemma probe_length: "length (fetch_general_small_probe w i analysis) \<le> 2"
  by (simp add: fetch_general_small_probe_def Let_def)

lemma py_slice_to_length: "0 \<le> n \<Longrightarrow> length (py_slice_to n xs) \<le> nat n"
  by (simp add: py_slice_to_def)

section \<open>Lemmas on the per-question flow\<close>

lemma answer_question_caught:
  assumes "snd (answer_flow sv question st) = Inl (Exc msg)"
  shows "snd (answer_question sv question st) = Inr (error_answer msg)"
  using assms by (cases "answer_flow sv question st") (simp add: answer_question_def)

lemma answer_question_passed:
  assumes "snd (answer_flow sv question st) = Inl (BaseExc name)"
  shows "snd (answer_question sv question st) = Inl (BaseExc name)"
  using assms by (cases "answer_flow sv question st") (simp add: answer_question_def)

lemma answer_question_ok:
  assumes "snd (answer_flow sv question st) = Inr a"
  shows "snd (answer_question sv question st) = Inr a"
  using assms by (cases "answer_flow sv question st") (simp add: answer_question_def)

lemma answer_question_state:
  "fst (answer_question sv question st) = fst (answer_flow sv question st)"
  by (cases "answer_flow sv question st")
    (simp add: answer_question_def split: sum.splits raised.splits)

lemma answer_question_no_exception:
  "snd (answer_question sv question st) \<noteq> Inl (Exc msg)"
  by (cases "answer_flow sv question st")
    (simp add: answer_question_def split: sum.splits raised.splits)

lemma error_answer_fields:
  "ans_confidence_score (error_answer msg) = 0 \<and> sources (error_answer msg) = [] \<and>
   answer (error_answer msg) = ''Error: '' @ msg \<and>
   limitations (error_answer msg) = [''Internal error during analysis.''] \<and>
   companies_analyzed (error_answer msg) = [] \<and> filing_types_used (error_answer msg) = []"
  by (simp add: error_answer_def)

section \<open>Claims\<close>

text \<open>
  C9. Citation renumbering is idempotent. For every text \<open>t\<close>, let \<open>t'\<close> be the text
  returned by \<open>_compact_renumber(t, _parse_used_tags(t))\<close>. Then \<open>_parse_used_tags(t')\<close>
  is exactly \<open>1, 2, ..., k\<close> in order (\<open>k\<close> the number of distinct tag integers of
  \<open>t\<close>), the renumbering map built from it sends each of these to itself, and renumbering
  \<open>t'\<close> again returns \<open>t'\<close> unchanged.
\<close>

theorem compact_renumber_idempotent:
  "(let t' = fst (compact_renumber t (parse_used_tags t)) in
      parse_used_tags t' = [1 ..< Suc (length (parse_used_tags t))] \<and>
      (\<forall>n \<in> set (parse_used_tags t'). snd (compact_renumber t' (parse_used_tags t')) n = Some n) \<and>
      fst (compact_renumber t' (parse_used_tags t')) = t')"
proof -
  let ?t' = "fst (compact_renumber t (parse_used_tags t))"
  have p: "parse_used_tags ?t' = [1 ..< Suc (length (parse_used_tags t))]"
    by (rule parse_used_tags_renumbered)
  have m: "\<forall>n \<in> set (parse_used_tags ?t'). snd (compact_renumber ?t' (parse_used_tags ?t')) n = Some n"
  proof
    fix n assume "n \<in> set (parse_used_tags ?t')"
    then have "n \<in> set [1 ..< Suc (length (parse_used_tags t))]" by (simp only: p)
    then have "renumber_mapping [1 ..< Suc (length (parse_used_tags t))] n = Some n"
      by (rule renumber_mapping_upt)
    moreover have "snd (compact_renumber ?t' (parse_used_tags ?t')) = renumber_mapping (parse_used_tags ?t')"
      by (simp add: compact_renumber_def Let_def)
    ultimately show "snd (compact_renumber ?t' (parse_used_tags ?t')) n = Some n"
      by (simp only: p)
  qed
  have f: "fst (compact_renumber ?t' (parse_used_tags ?t')) = ?t'"
    unfolding p by (rule compact_renumber_fixed)
  from p m f show ?thesis by (simp only: Let_def)
qed

theorem compact_renumber_idempotent_witness:
  "fst (compact_renumber ''x [C7] y [C7] [C2]'' (parse_used_tags ''x [C7] y [C7] [C2]'')) = ''x [C1] y [C1] [C2]'' \<and>
   (2::nat) \<in> set (parse_used_tags ''x [C1] y [C1] [C2]'') \<and>
   snd (compact_renumber ''x [C1] y [C1] [C2]'' (parse_used_tags ''x [C1] y [C1] [C2]'')) 2 = Some 2 \<and>
   fst (compact_renumber ''x [C1] y [C1] [C2]'' (parse_used_tags ''x [C1] y [C1] [C2]'')) = ''x [C1] y [C1] [C2]''"
proof -
  have e: "fst (compact_renumber ''x [C7] y [C7] [C2]'' (parse_used_tags ''x [C7] y [C7] [C2]'')) = ''x [C1] y [C1] [C2]''"
    by code_simp
  have m: "(2::nat) \<in> set (parse_used_tags ''x [C1] y [C1] [C2]'')"
    by code_simp
  note th = compact_renumber_idempotent [of "''x [C7] y [C7] [C2]''", unfolded Let_def e]
  from th have a: "\<forall>n \<in> set (parse_used_tags ''x [C1] y [C1] [C2]'').
      snd (compact_renumber ''x [C1] y [C1] [C2]'' (parse_used_tags ''x [C1] y [C1] [C2]'')) n = Some n"
    by (rule conjunct1 [OF conjunct2])
  from th have f: "fst (compact_renumber ''x [C1] y [C1] [C2]'' (parse_used_tags ''x [C1] y [C1] [C2]'')) = ''x [C1] y [C1] [C2]''"
    by (rule conjunct2 [OF conjunct2])
  from a m have "snd (compact_renumber ''x [C1] y [C1] [C2]'' (parse_used_tags ''x [C1] y [C1] [C2]'')) 2 = Some 2"
    by (rule bspec)
  with e m f show ?thesis by (intro conjI)
qed




text \<open>
  C2. For the answer text \<open>A [C3] and B [C1] and [C3] again\<close> and at least three allowed
  records, the rewritten text is \<open>A [C1] and B [C2] and [C1] again\<close> and there are exactly
  two sources, those of records 3 and 1 in this order. In general the \<open>k\<close>-th distinct tag
  integer in first-occurrence order is mapped to \<open>k\<close>, every occurrence of a tag is
  replaced by the tag of its new number, and the sources follow the used ids in
  first-occurrence order: when all of them are in range, the \<open>k\<close>-th source is the record of
  the tag renumbered \<open>k\<close>.
\<close>

theorem citation_round_trip:
  "(let ids = parse_used_tags (answer a);
        a' = normalize_citations (allowed_map_of chunks) a in
      (\<forall>k < length ids. renumber_mapping ids (ids ! k) = Some (Suc k) \<and> tag_number ids (ids ! k) = Suc k) \<and>
      answer a' = re_sub (\<lambda>ds. group0 (py_str (tag_number ids (py_int ds)))) (answer a) \<and>
      sources a' = map (\<lambda>i. source_of_chunk (chunks ! (i - 1))) (filter (in_range (length chunks)) ids) \<and>
      ((\<forall>i \<in> set ids. in_range (length chunks) i) \<longrightarrow>
         length (sources a') = length ids \<and>
         (\<forall>k < length ids. sources a' ! k = source_of_chunk (chunks ! (ids ! k - 1))))) \<and>
   (answer a = ''A [C3] and B [C1] and [C3] again'' \<and> 3 \<le> length chunks \<longrightarrow>
      answer (normalize_citations (allowed_map_of chunks) a) = ''A [C1] and B [C2] and [C1] again'' \<and>
      sources (normalize_citations (allowed_map_of chunks) a)
        = [source_of_chunk (chunks ! 2), source_of_chunk (chunks ! 0)])"
proof -
  let ?ids = "parse_used_tags (answer a)"
  let ?a' = "normalize_citations (allowed_map_of chunks) a"
  have d: "distinct ?ids" by (rule distinct_parse_used_tags)
  have k: "\<forall>k < length ?ids. renumber_mapping ?ids (?ids ! k) = Some (Suc k) \<and> tag_number ?ids (?ids ! k) = Suc k"
    using d by (simp add: renumber_mapping_nth tag_number_nth)
  have t: "answer ?a' = re_sub (\<lambda>ds. group0 (py_str (tag_number ?ids (py_int ds)))) (answer a)"
    by (simp only: normalize_answer compact_renumber_text)
  have s: "sources ?a' = map (\<lambda>i. source_of_chunk (chunks ! (i - 1))) (filter (in_range (length chunks)) ?ids)"
    by (simp only: normalize_sources sources_eq)
  have r: "(\<forall>i \<in> set ?ids. in_range (length chunks) i) \<longrightarrow>
         length (sources ?a') = length ?ids \<and>
         (\<forall>k < length ?ids. sources ?a' ! k = source_of_chunk (chunks ! (?ids ! k - 1)))"
  proof
    assume "\<forall>i \<in> set ?ids. in_range (length chunks) i"
    then have "filter (in_range (length chunks)) ?ids = ?ids" by (rule sources_all_in_range)
    with s have "sources ?a' = map (\<lambda>i. source_of_chunk (chunks ! (i - 1))) ?ids" by simp
    then show "length (sources ?a') = length ?ids \<and>
         (\<forall>k < length ?ids. sources ?a' ! k = source_of_chunk (chunks ! (?ids ! k - 1)))"
      by simp
  qed
  have e: "answer a = ''A [C3] and B [C1] and [C3] again'' \<and> 3 \<le> length chunks \<longrightarrow>
      answer ?a' = ''A [C1] and B [C2] and [C1] again'' \<and>
      sources ?a' = [source_of_chunk (chunks ! 2), source_of_chunk (chunks ! 0)]"
  proof
    assume h: "answer a = ''A [C3] and B [C1] and [C3] again'' \<and> 3 \<le> length chunks"
    have p: "parse_used_tags ''A [C3] and B [C1] and [C3] again'' = [3, 1]"
      by code_simp
    have c: "fst (compact_renumber ''A [C3] and B [C1] and [C3] again'' [3, 1])
               = ''A [C1] and B [C2] and [C1] again''"
      by code_simp
    from h p c have 1: "answer ?a' = ''A [C1] and B [C2] and [C1] again''"
      by (simp only: normalize_answer)
    from h p have "sources ?a'
        = map (\<lambda>i. source_of_chunk (chunks ! (i - 1))) (filter (in_range (length chunks)) [3, 1])"
      by (simp only: s)
    with h have 2: "sources ?a' = [source_of_chunk (chunks ! 2), source_of_chunk (chunks ! 0)]"
      by (simp add: in_range_def)
    from 1 2 show "answer ?a' = ''A [C1] and B [C2] and [C1] again'' \<and>
      sources ?a' = [source_of_chunk (chunks ! 2), source_of_chunk (chunks ! 0)]" ..
  qed
  from k t s r e show ?thesis by (simp only: Let_def) 
qed

theorem citation_round_trip_witness:
  "answer (default_answer\<lparr>answer := ''A [C3] and B [C1] and [C3] again''\<rparr>)
     = ''A [C3] and B [C1] and [C3] again'' \<and>
   3 \<le> length example_chunks \<and>
   answer (normalize_citations (allowed_map_of example_chunks)
             (default_answer\<lparr>answer := ''A [C3] and B [C1] and [C3] again''\<rparr>))
     = ''A [C1] and B [C2] and [C1] again'' \<and>
   map src_chunk_id (sources (normalize_citations (allowed_map_of example_chunks)
             (default_answer\<lparr>answer := ''A [C3] and B [C1] and [C3] again''\<rparr>)))
     = [Some ''c3'', Some ''c1'']"
proof -
  let ?a = "default_answer\<lparr>answer := ''A [C3] and B [C1] and [C3] again''\<rparr>"
  have h: "answer ?a = ''A [C3] and B [C1] and [C3] again'' \<and> 3 \<le> length example_chunks"
    by (simp add: example_chunks_def)
  note th = citation_round_trip [of ?a example_chunks, THEN conjunct2, THEN mp, OF h]
  have "map src_chunk_id [source_of_chunk (example_chunks ! 2), source_of_chunk (example_chunks ! 0)]
          = [Some ''c3'', Some ''c1'']"
    by (simp add: example_chunks_def source_of_chunk_def example_chunk_def)
  with th h show ?thesis by simp
qed

text \<open>
  C10. For every query interpretation, \<open>_get_default_companies\<close> returns one of
  \<open>["JPM"]\<close>, \<open>["JNJ"]\<close>, \<open>["AAPL"]\<close>, so it is never empty; the companies of
  \<open>_determine_retrieval_strategy\<close> are never empty, with or without tickers in the query;
  and the strategy never fails with an index error at \<open>companies[0]\<close>: it always returns
  a strategy.
\<close>

theorem default_companies_nonempty:
  "get_default_companies analysis \<in> {[''JPM''], [''JNJ''], [''AAPL'']} \<and>
   get_default_companies analysis \<noteq> [] \<and>
   strategy_companies analysis \<noteq> [] \<and>
   determine_retrieval_strategy analysis allow_default \<noteq> Inl IndexError \<and>
   (\<exists>s. determine_retrieval_strategy analysis allow_default = Inr s)"
proof -
  have 1: "get_default_companies analysis \<in> {[''JPM''], [''JNJ''], [''AAPL'']}"
    by (rule get_default_companies_cases)
  then have 2: "get_default_companies analysis \<noteq> []" by auto
  have 3: "strategy_companies analysis \<noteq> []" by (rule strategy_companies_nonempty)
  then obtain c0 cs where c: "strategy_companies analysis = c0 # cs"
    by (cases "strategy_companies analysis") auto
  have 5: "\<exists>s. determine_retrieval_strategy analysis allow_default = Inr s"
    by (simp add: determine_retrieval_strategy_def Let_def c)
  then have 4: "determine_retrieval_strategy analysis allow_default \<noteq> Inl IndexError" by auto
  from 1 2 3 4 5 show ?thesis by (intro conjI)
qed

theorem default_companies_nonempty_witness:
  "tickers (example_query [] [] thematic_analysis [''supply'', ''chain'']) = [] \<and>
   get_default_companies (example_query [] [] thematic_analysis [''supply'', ''chain'']) = [''AAPL''] \<and>
   determine_retrieval_strategy (example_query [] [] thematic_analysis [''supply'', ''chain'']) True
     = Inr \<lparr> description = ''Default targeted (single 10-K 1A)'', reason = ''default'',
             targets = [mk_target ''10-K'' [''1A''] ''AAPL''] \<rparr>"
proof -
  let ?q = "example_query [] [] thematic_analysis [''supply'', ''chain'']"
  note th = default_companies_nonempty [of ?q True]
  have t: "tickers ?q = []" by (simp add: example_query_def)
  have g: "get_default_companies ?q = [''AAPL'']" by code_simp
  have d: "determine_retrieval_strategy ?q True
     = Inr \<lparr> description = ''Default targeted (single 10-K 1A)'', reason = ''default'',
             targets = [mk_target ''10-K'' [''1A''] ''AAPL''] \<rparr>"
    by code_simp
  from th t g d show ?thesis by simp
qed

text \<open>
  C4, as stated, fails: for a \<open>multi_ticker_comparison\<close> query with the three tickers AAPL,
  MSFT and GOOGL that matches none of the four earlier rules, the strategy has targets for
  AAPL and MSFT only. Line 64 has already cut the companies to the first two tickers.
\<close>

theorem multi_ticker_uncapped_counterexample:
  "query_type (example_query [''AAPL'', ''MSFT'', ''GOOGL''] [] multi_ticker_comparison [''compare'']) = multi_ticker_comparison \<and>
   \<not> insider_rule (example_query [''AAPL'', ''MSFT'', ''GOOGL''] [] multi_ticker_comparison [''compare'']) \<and>
   \<not> risk_rule (example_query [''AAPL'', ''MSFT'', ''GOOGL''] [] multi_ticker_comparison [''compare'']) \<and>
   \<not> mda_rule (example_query [''AAPL'', ''MSFT'', ''GOOGL''] [] multi_ticker_comparison [''compare'']) \<and>
   \<not> proxy_rule (example_query [''AAPL'', ''MSFT'', ''GOOGL''] [] multi_ticker_comparison [''compare'']) \<and>
   ''GOOGL'' \<in> set (tickers (example_query [''AAPL'', ''MSFT'', ''GOOGL''] [] multi_ticker_comparison [''compare''])) \<and>
   determine_retrieval_strategy (example_query [''AAPL'', ''MSFT'', ''GOOGL''] [] multi_ticker_comparison [''compare'']) False
     = Inr \<lparr> description = ''Multi-company comparison (10-K 1A)'', reason = ''query_type'',
             targets = [mk_target ''10-K'' [''1A''] ''AAPL'', mk_target ''10-K'' [''1A''] ''MSFT''] \<rparr> \<and>
   mk_target ''10-K'' [''1A''] ''GOOGL''
     \<notin> set [mk_target ''10-K'' [''1A''] ''AAPL'', mk_target ''10-K'' [''1A''] ''MSFT'']"
  by code_simp

text \<open>
  C4, amended. For every query interpretation whose query type is
  \<open>multi_ticker_comparison\<close> and that matches none of the four earlier rules, the strategy
  has the reason \<open>query_type\<close> and one target (company, 10-K, sections 1A) for every
  company of the companies sequence, with no further cap by the rule itself. The companies
  sequence is the first two tickers of the query (the default companies when the query has
  no ticker), so there are at most two targets.
\<close>

theorem multi_ticker_rule_targets:
  assumes "query_type analysis = multi_ticker_comparison"
    and "\<not> insider_rule analysis" and "\<not> risk_rule analysis"
    and "\<not> mda_rule analysis" and "\<not> proxy_rule analysis"
  shows "determine_retrieval_strategy analysis allow_default
           = Inr \<lparr> description = ''Multi-company comparison (10-K 1A)'', reason = ''query_type'',
                   targets = map (mk_target ''10-K'' [''1A'']) (strategy_companies analysis) \<rparr> \<and>
         (tickers analysis \<noteq> [] \<longrightarrow> strategy_companies analysis = take 2 (tickers analysis)) \<and>
         (tickers analysis = [] \<longrightarrow> strategy_companies analysis = get_default_companies analysis) \<and>
         length (strategy_companies analysis) \<le> 2"
proof -
  from assms have 1: "determine_retrieval_strategy analysis allow_default
           = Inr \<lparr> description = ''Multi-company comparison (10-K 1A)'', reason = ''query_type'',
                   targets = map (mk_target ''10-K'' [''1A'']) (strategy_companies analysis) \<rparr>"
    by (simp add: determine_retrieval_strategy_def Let_def)
  have 2: "tickers analysis \<noteq> [] \<longrightarrow> strategy_companies analysis = take 2 (tickers analysis)"
    by (simp add: strategy_companies_def)
  have 3: "tickers analysis = [] \<longrightarrow> strategy_companies analysis = get_default_companies analysis"
    using get_default_companies_cases [of analysis] by (auto simp: strategy_companies_def)
  have 4: "length (strategy_companies analysis) \<le> 2"
    by (simp add: strategy_companies_def)
  from 1 2 3 4 show ?thesis by (intro conjI)
qed

theorem multi_ticker_rule_targets_witness:
  "query_type (example_query [''JPM'', ''BAC'', ''WFC'', ''C''] [''8-K''] multi_ticker_comparison [''liquidity'']) = multi_ticker_comparison \<and>
   \<not> insider_rule (example_query [''JPM'', ''BAC'', ''WFC'', ''C''] [''8-K''] multi_ticker_comparison [''liquidity'']) \<and>
   \<not> risk_rule (example_query [''JPM'', ''BAC'', ''WFC'', ''C''] [''8-K''] multi_ticker_comparison [''liquidity'']) \<and>
   \<not> mda_rule (example_query [''JPM'', ''BAC'', ''WFC'', ''C''] [''8-K''] multi_ticker_comparison [''liquidity'']) \<and>
   \<not> proxy_rule (example_query [''JPM'', ''BAC'', ''WFC'', ''C''] [''8-K''] multi_ticker_comparison [''liquidity'']) \<and>
   determine_retrieval_strategy (example_query [''JPM'', ''BAC'', ''WFC'', ''C''] [''8-K''] multi_ticker_comparison [''liquidity'']) True
     = Inr \<lparr> description = ''Multi-company comparison (10-K 1A)'', reason = ''query_type'',
             targets = [mk_target ''10-K'' [''1A''] ''JPM'', mk_target ''10-K'' [''1A''] ''BAC''] \<rparr>"
proof -
  let ?q = "example_query [''JPM'', ''BAC'', ''WFC'', ''C''] [''8-K''] multi_ticker_comparison [''liquidity'']"
  have h1: "query_type ?q = multi_ticker_comparison" by (simp add: example_query_def)
  have h2: "\<not> insider_rule ?q" by code_simp
  have h3: "\<not> risk_rule ?q" by code_simp
  have h4: "\<not> mda_rule ?q" by code_simp
  have h5: "\<not> proxy_rule ?q" by code_simp
  note th = multi_ticker_rule_targets [OF h1 h2 h3 h4 h5, of True]
  have c: "strategy_companies ?q = [''JPM'', ''BAC'']"
    by (simp add: strategy_companies_def example_query_def)
  from th c h1 h2 h3 h4 h5 show ?thesis by simp
qed

text \<open>
  C6, as stated, fails in its first part: the key is built from the document types in the
  order given, not sorted. The key for \<open>["10-Q", "10-K"]\<close> is \<open>AAPL_10-Q-10-K_recent\<close>,
  which is not the key of the sorted list.
\<close>

theorem cache_key_sorted_counterexample:
  "cache_key ''AAPL'' [''10-Q'', ''10-K''] None = ''AAPL_10-Q-10-K_recent'' \<and>
   sort [''10-Q'', ''10-K''] = [''10-K'', ''10-Q''] \<and>
   cache_key ''AAPL'' [''10-Q'', ''10-K''] None \<noteq> cache_key ''AAPL'' (sort [''10-Q'', ''10-K'']) None"
  by code_simp

text \<open>
  C6, amended. The cache key of \<open>_retrieve_documents\<close> is the company, the effective
  document types joined in the order given, and the date floor or \<open>recent\<close>. For one
  company: on a hit the cached sequence is returned, no fetch is made and the cache is
  unchanged; on a miss with a non-empty fetch result the result is stored under the key and
  returned; on a miss with an empty result nothing is stored and the company is recorded in
  the missing list. For any list of companies: stored sequences are never empty (if none was
  before), entries already in the cache are kept, and when the first call leaves no missing
  company, a second call with the same arguments returns the same chunks and the same state,
  whatever the fetcher would answer: the fetcher is not invoked again.
\<close>

theorem evidence_cache_behaviour:
  "(let dts = effective_document_types analysis;
        date_from = date_from_of (time_periods analysis);
        key = cache_key company dts date_from;
        chunks = fetch (length (fetch_calls st)) company dts date_from;
        call = (company, dts, date_from)
    in
      (\<forall>cached. document_cache st key = Some cached \<longrightarrow>
         retrieve_documents fetch [company] analysis st = (st\<lparr>missing_companies := []\<rparr>, cached)) \<and>
      (document_cache st key = None \<and> chunks \<noteq> [] \<longrightarrow>
         retrieve_documents fetch [company] analysis st =
           (st\<lparr>missing_companies := [], fetch_calls := fetch_calls st @ [call],
               document_cache := (document_cache st)(key \<mapsto> chunks)\<rparr>, chunks)) \<and>
      (document_cache st key = None \<and> chunks = [] \<longrightarrow>
         retrieve_documents fetch [company] analysis st =
           (st\<lparr>missing_companies := [company], fetch_calls := fetch_calls st @ [call]\<rparr>, []))) \<and>
   (let result = retrieve_documents fetch companies analysis st in
      ((\<forall>k v. document_cache st k = Some v \<longrightarrow> v \<noteq> []) \<longrightarrow>
         (\<forall>k v. document_cache (fst result) k = Some v \<longrightarrow> v \<noteq> [])) \<and>
      (\<forall>k v. document_cache st k = Some v \<longrightarrow> document_cache (fst result) k = Some v) \<and>
      (missing_companies (fst result) = [] \<longrightarrow>
         retrieve_documents fetch_again companies analysis (fst result) = result))"
proof -
  let ?dts = "effective_document_types analysis"
  let ?df = "date_from_of (time_periods analysis)"
  let ?st0 = "st\<lparr>missing_companies := []\<rparr>"
  let ?res = "retrieve_documents fetch companies analysis st"
  have r: "?res = retrieve_loop fetch ?dts ?df companies (?st0, [])"
    by (simp add: retrieve_documents_def Let_def)
  have inv: "(\<forall>k v. document_cache st k = Some v \<longrightarrow> v \<noteq> []) \<longrightarrow>
         (\<forall>k v. document_cache (fst ?res) k = Some v \<longrightarrow> v \<noteq> [])"
  proof
    assume "\<forall>k v. document_cache st k = Some v \<longrightarrow> v \<noteq> []"
    then have "\<forall>k v. document_cache ?st0 k = Some v \<longrightarrow> v \<noteq> []" by simp
    then show "\<forall>k v. document_cache (fst ?res) k = Some v \<longrightarrow> v \<noteq> []"
      unfolding r by (rule retrieve_loop_nonempty_inv)
  qed
  have mono: "\<forall>k v. document_cache st k = Some v \<longrightarrow> document_cache (fst ?res) k = Some v"
  proof (intro allI impI)
    fix k v assume "document_cache st k = Some v"
    then have "document_cache ?st0 k = Some v" by simp
    then show "document_cache (fst ?res) k = Some v"
      unfolding r by (rule retrieve_loop_cache_mono)
  qed
  have again: "missing_companies (fst ?res) = [] \<longrightarrow>
         retrieve_documents fetch_again companies analysis (fst ?res) = ?res"
    by (rule impI) (rule retrieve_documents_again)
  have one: "(\<forall>cached. document_cache st (cache_key company ?dts ?df) = Some cached \<longrightarrow>
         retrieve_documents fetch [company] analysis st = (st\<lparr>missing_companies := []\<rparr>, cached))"
    by (intro allI impI) (rule retrieve_documents_hit)
  have two: "document_cache st (cache_key company ?dts ?df) = None \<and>
        fetch (length (fetch_calls st)) company ?dts ?df \<noteq> [] \<longrightarrow>
         retrieve_documents fetch [company] analysis st =
           (st\<lparr>missing_companies := [], fetch_calls := fetch_calls st @ [(company, ?dts, ?df)],
               document_cache := (document_cache st)(cache_key company ?dts ?df \<mapsto>
                  fetch (length (fetch_calls st)) company ?dts ?df)\<rparr>,
            fetch (length (fetch_calls st)) company ?dts ?df)"
    by (auto simp: retrieve_documents_store)
  have three: "document_cache st (cache_key company ?dts ?df) = None \<and>
        fetch (length (fetch_calls st)) company ?dts ?df = [] \<longrightarrow>
         retrieve_documents fetch [company] analysis st =
           (st\<lparr>missing_companies := [company], fetch_calls := fetch_calls st @ [(company, ?dts, ?df)]\<rparr>, [])"
    by (auto simp: retrieve_documents_missing)
  from one two three inv mono again show ?thesis
    by (simp only: Let_def)
qed

theorem evidence_cache_behaviour_witness:
  "document_cache empty_state ''AAPL_10-K_recent'' = None \<and>
   example_fetch 0 ''AAPL'' [''10-K''] None \<noteq> [] \<and>
   retrieve_documents example_fetch [''AAPL''] (example_query [''AAPL''] [''10-K''] single_ticker []) empty_state
     = (\<lparr> document_cache = Map.empty(''AAPL_10-K_recent'' \<mapsto> [example_chunk ''c1'']),
          missing_companies = [], fetch_calls = [(''AAPL'', [''10-K''], None)] \<rparr>,
        [example_chunk ''c1'']) \<and>
   retrieve_documents (\<lambda>n c d f. []) [''AAPL''] (example_query [''AAPL''] [''10-K''] single_ticker [])
       \<lparr> document_cache = Map.empty(''AAPL_10-K_recent'' \<mapsto> [example_chunk ''c1'']),
         missing_companies = [], fetch_calls = [(''AAPL'', [''10-K''], None)] \<rparr>
     = (\<lparr> document_cache = Map.empty(''AAPL_10-K_recent'' \<mapsto> [example_chunk ''c1'']),
          missing_companies = [], fetch_calls = [(''AAPL'', [''10-K''], None)] \<rparr>,
        [example_chunk ''c1''])"
proof -
  let ?q = "example_query [''AAPL''] [''10-K''] single_ticker []"
  let ?st1 = "\<lparr> document_cache = Map.empty(''AAPL_10-K_recent'' \<mapsto> [example_chunk ''c1'']),
          missing_companies = [], fetch_calls = [(''AAPL'', [''10-K''], None)] \<rparr>"
  have dts: "effective_document_types ?q = [''10-K'']"
    by (simp add: effective_document_types_def example_query_def)
  have df: "date_from_of (time_periods ?q) = None"
    by (simp add: example_query_def)
  have key: "cache_key ''AAPL'' [''10-K''] None = ''AAPL_10-K_recent''"
    by (simp add: cache_key_def)
  have miss: "document_cache empty_state ''AAPL_10-K_recent'' = None"
    by (simp add: empty_state_def)
  have ne: "example_fetch 0 ''AAPL'' [''10-K''] None \<noteq> []"
    by (simp add: example_fetch_def)
  have f: "example_fetch 0 ''AAPL'' [''10-K''] None = [example_chunk ''c1'']"
    by (simp add: example_fetch_def)
  have n: "length (fetch_calls empty_state) = 0" by (simp add: empty_state_def)
  note th = evidence_cache_behaviour [where analysis = ?q and company = "''AAPL''"
      and fetch = example_fetch and st = empty_state and fetch_again = "\<lambda>n c d f. []"
      and companies = "[''AAPL'']", unfolded Let_def dts df key n]
  from th have "document_cache empty_state ''AAPL_10-K_recent'' = None \<and>
        example_fetch 0 ''AAPL'' [''10-K''] None \<noteq> [] \<longrightarrow>
         retrieve_documents example_fetch [''AAPL''] ?q empty_state =
           (empty_state\<lparr>missing_companies := [], fetch_calls := fetch_calls empty_state @ [(''AAPL'', [''10-K''], None)],
               document_cache := (document_cache empty_state)(''AAPL_10-K_recent'' \<mapsto>
                 example_fetch 0 ''AAPL'' [''10-K''] None)\<rparr>,
            example_fetch 0 ''AAPL'' [''10-K''] None)"
    by (rule conjunct1 [OF conjunct2 [OF conjunct1]])
  with miss ne have "retrieve_documents example_fetch [''AAPL''] ?q empty_state =
           (empty_state\<lparr>missing_companies := [], fetch_calls := fetch_calls empty_state @ [(''AAPL'', [''10-K''], None)],
               document_cache := (document_cache empty_state)(''AAPL_10-K_recent'' \<mapsto>
                 example_fetch 0 ''AAPL'' [''10-K''] None)\<rparr>,
            example_fetch 0 ''AAPL'' [''10-K''] None)"
    by blast
  then have first: "retrieve_documents example_fetch [''AAPL''] ?q empty_state = (?st1, [example_chunk ''c1''])"
    by (simp add: f empty_state_def)
  from th have "missing_companies (fst (retrieve_documents example_fetch [''AAPL''] ?q empty_state)) = [] \<longrightarrow>
         retrieve_documents (\<lambda>n c d f. []) [''AAPL''] ?q (fst (retrieve_documents example_fetch [''AAPL''] ?q empty_state))
           = retrieve_documents example_fetch [''AAPL''] ?q empty_state"
    by (rule conjunct2 [OF conjunct2 [OF conjunct2]])
  then have second: "retrieve_documents (\<lambda>n c d f. []) [''AAPL''] ?q ?st1 = (?st1, [example_chunk ''c1''])"
    by (simp add: first)
  from miss ne first second show ?thesis by (intro conjI)
qed

text \<open>
  C3, as stated, fails: when the section extractor returns 1501 characters, the structured
  fetcher returns a record whose content has 1503 characters, the first 1500 and three dots;
  and for a company name of 1500 characters the general fetcher returns a record whose
  content has 1618 characters.
\<close>

theorem content_over_1500_counterexample:
  "map (length \<circ> content)
     (fetch_structured_targeted (example_world (replicate 1501 CHR ''x'')) 0 ''AAPL'' ''10-K'' [''1A'']
        (example_query [''AAPL''] [''10-K''] single_ticker [''risk'']))
     = [1503] \<and>
   map (length \<circ> content)
     (fetch_general_targeted (named_world (replicate 1500 CHR ''x'') :: unit world) 0 ''AAPL'' ''8-K''
        (example_query [''AAPL''] [''8-K''] single_ticker [''event'']))
     = [1618] \<and>
   (1500 :: nat) < 1503 \<and> (1500 :: nat) < 1618"
proof -
  let ?w = "example_world (replicate 1501 CHR ''x'')"
  let ?q = "example_query [''AAPL''] [''10-K''] single_ticker [''risk'']"
  have s: "search_post ?w 0 (search_query ''AAPL'' ''10-K'') = Response 200 (example_filing # [])"
    by (simp add: example_world_def)
  have l: "filing_link example_filing = Some ''https://www.sec.gov/f.htm''"
    by (simp add: filing_link_def truthy_def example_filing_def)
  have e: "extractor_get ?w 0 ''https://www.sec.gov/f.htm'' ''1A'' = Response 200 (replicate 1501 CHR ''x'')"
    by (simp add: example_world_def)
  have p: "py_strip (replicate 1501 CHR ''x'') = replicate 1501 CHR ''x''"
    by (rule py_strip_replicate [OF not_space_x])
  have n: "filedAt example_filing \<noteq> Null" by (simp add: example_filing_def)
  from fetch_structured_extracted [OF s l e, of "[]" ?q] n
  have "map content (fetch_structured_targeted ?w 0 ''AAPL'' ''10-K'' [''1A''] ?q)
        = [truncate_text (replicate 1501 CHR ''x'')]"
    by (simp add: p)
  then have "map (length \<circ> content) (fetch_structured_targeted ?w 0 ''AAPL'' ''10-K'' [''1A''] ?q)
        = map length [truncate_text (replicate 1501 CHR ''x'')]"
    by (simp only: map_map [symmetric])
  then have 1: "map (length \<circ> content) (fetch_structured_targeted ?w 0 ''AAPL'' ''10-K'' [''1A''] ?q) = [1503]"
    by (simp add: truncate_text_length)
  let ?g = "fetch_general_targeted (named_world (replicate 1500 CHR ''x'') :: unit world) 0 ''AAPL'' ''8-K''
        (example_query [''AAPL''] [''8-K''] single_ticker [''event''])"
  have "map content ?g = [general_content ''8-K'' (replicate 1500 CHR ''x'') ''2024-11-01'' ''Form 10-K'']"
    by (rule named_world_general)
  then have "map (length \<circ> content) ?g
      = map length [general_content ''8-K'' (replicate 1500 CHR ''x'') ''2024-11-01'' ''Form 10-K'']"
    by (simp only: map_map [symmetric])
  then have 2: "map (length \<circ> content) ?g = [1618]"
    by (simp add: general_content_length)
  from 1 2 show ?thesis by simp
qed

text \<open>
  C3, amended. No targeted fetcher returns a record with empty content. The content of an
  insider record has between 1 and 1200 characters. The content of a structured record has
  between 200 and 1503 characters; when the search finds a filing with a link and the
  extractor answers, extracted text of fewer than 200 characters (after stripping) gives no
  record, a filing whose \<open>filedAt\<close> is \<open>null\<close> gives no record, and otherwise there is one
  record, whose content is the text as it is when it has at most 1500 characters, and its
  first 1500 characters with three dots appended when it is longer. The content of a general
  record is the template filled with the form, the company name, a date of at most 10
  characters and a description of at most 180 characters; its length is the sum of their
  lengths and 96, so it has at least 96 characters and no fixed upper bound: for every bound
  there is an answer of the provider for which the record is longer.
\<close>

theorem targeted_fetcher_content_bounds:
  "(\<forall>c \<in> set (fetch_insider_targeted ops w i tkr form analysis).
       1 \<le> length (content c) \<and> length (content c) \<le> 1200) \<and>
   (\<forall>c \<in> set (fetch_structured_targeted w i tkr form sections analysis).
       200 \<le> length (content c) \<and> length (content c) \<le> 1503) \<and>
   (\<forall>c \<in> set (fetch_general_targeted w i tkr form analysis). 96 \<le> length (content c)) \<and>
   (\<forall>c \<in> set (fetch_target ops w analysis i t). 1 \<le> length (content c)) \<and>
   (search_post w i (search_query tkr form) = Response 200 (f # fs) \<and>
    filing_link f = Some link \<and>
    extractor_get w i link sec = Response 200 body \<longrightarrow>
      (length (py_strip body) < 200 \<longrightarrow>
         fetch_structured_targeted w i tkr form (sec # secs) analysis = []) \<and>
      (200 \<le> length (py_strip body) \<and> filedAt f = Null \<longrightarrow>
         fetch_structured_targeted w i tkr form (sec # secs) analysis = []) \<and>
      (200 \<le> length (py_strip body) \<and> length (py_strip body) \<le> 1500 \<and> filedAt f \<noteq> Null \<longrightarrow>
         map content (fetch_structured_targeted w i tkr form (sec # secs) analysis) = [py_strip body]) \<and>
      (1500 < length (py_strip body) \<and> filedAt f \<noteq> Null \<longrightarrow>
         map content (fetch_structured_targeted w i tkr form (sec # secs) analysis)
           = [take 1500 (py_strip body) @ ''...''])) \<and>
   (search_post w i (search_query tkr form) = Response 200 (f # fs) \<and>
    slice_field 10 [] (filedAt f) = Inr date \<and>
    slice_field 180 (form @ '' filing'') (filing_description f) = Inr desc \<and>
    str_field [] (linkToFilingDetails f) = Inr url \<longrightarrow>
      map content (fetch_general_targeted w i tkr form analysis)
        = [general_content form (fmt_field ''Unknown Company'' (companyName f)) date desc] \<and>
      length date \<le> 10 \<and> length desc \<le> 180) \<and>
   length (general_content form company date desc)
     = length form + length company + length date + length desc + 96 \<and>
   (\<forall>B. \<exists>w' :: 'v world. \<exists>c \<in> set (fetch_general_targeted w' i tkr form analysis).
       B < length (content c))"
proof -
  have 1: "\<forall>c \<in> set (fetch_insider_targeted ops w i tkr form analysis).
       1 \<le> length (content c) \<and> length (content c) \<le> 1200"
    using fetch_insider_content by blast
  have 2: "\<forall>c \<in> set (fetch_structured_targeted w i tkr form sections analysis).
       200 \<le> length (content c) \<and> length (content c) \<le> 1503"
    using fetch_structured_content by blast
  have 3: "\<forall>c \<in> set (fetch_general_targeted w i tkr form analysis). 96 \<le> length (content c)"
    using fetch_general_content by blast
  have 4: "\<forall>c \<in> set (fetch_target ops w analysis i t). 1 \<le> length (content c)"
    using fetch_target_content by blast
  have 5: "search_post w i (search_query tkr form) = Response 200 (f # fs) \<and>
    filing_link f = Some link \<and>
    extractor_get w i link sec = Response 200 body \<longrightarrow>
      (length (py_strip body) < 200 \<longrightarrow>
         fetch_structured_targeted w i tkr form (sec # secs) analysis = []) \<and>
      (200 \<le> length (py_strip body) \<and> filedAt f = Null \<longrightarrow>
         fetch_structured_targeted w i tkr form (sec # secs) analysis = []) \<and>
      (200 \<le> length (py_strip body) \<and> length (py_strip body) \<le> 1500 \<and> filedAt f \<noteq> Null \<longrightarrow>
         map content (fetch_structured_targeted w i tkr form (sec # secs) analysis) = [py_strip body]) \<and>
      (1500 < length (py_strip body) \<and> filedAt f \<noteq> Null \<longrightarrow>
         map content (fetch_structured_targeted w i tkr form (sec # secs) analysis)
           = [take 1500 (py_strip body) @ ''...''])"
  proof
    assume h: "search_post w i (search_query tkr form) = Response 200 (f # fs) \<and>
      filing_link f = Some link \<and> extractor_get w i link sec = Response 200 body"
    then have s: "search_post w i (search_query tkr form) = Response 200 (f # fs)"
      and l: "filing_link f = Some link"
      and e: "extractor_get w i link sec = Response 200 body" by simp_all
    have a: "length (py_strip body) < 200 \<longrightarrow>
         fetch_structured_targeted w i tkr form (sec # secs) analysis = []"
      using fetch_structured_extracted [OF s l e, of secs analysis] by blast
    have b: "200 \<le> length (py_strip body) \<and> filedAt f = Null \<longrightarrow>
         fetch_structured_targeted w i tkr form (sec # secs) analysis = []"
      using fetch_structured_null_date [OF s l e, of secs analysis] by blast
    have c: "200 \<le> length (py_strip body) \<and> length (py_strip body) \<le> 1500 \<and> filedAt f \<noteq> Null \<longrightarrow>
         map content (fetch_structured_targeted w i tkr form (sec # secs) analysis) = [py_strip body]"
      using fetch_structured_extracted [OF s l e, of secs analysis] by (simp add: truncate_text_def)
    have d: "1500 < length (py_strip body) \<and> filedAt f \<noteq> Null \<longrightarrow>
         map content (fetch_structured_targeted w i tkr form (sec # secs) analysis)
           = [take 1500 (py_strip body) @ ''...'']"
      using fetch_structured_extracted [OF s l e, of secs analysis] by (simp add: truncate_text_def)
    from a b c d show "(length (py_strip body) < 200 \<longrightarrow>
         fetch_structured_targeted w i tkr form (sec # secs) analysis = []) \<and>
      (200 \<le> length (py_strip body) \<and> filedAt f = Null \<longrightarrow>
         fetch_structured_targeted w i tkr form (sec # secs) analysis = []) \<and>
      (200 \<le> length (py_strip body) \<and> length (py_strip body) \<le> 1500 \<and> filedAt f \<noteq> Null \<longrightarrow>
         map content (fetch_structured_targeted w i tkr form (sec # secs) analysis) = [py_strip body]) \<and>
      (1500 < length (py_strip body) \<and> filedAt f \<noteq> Null \<longrightarrow>
         map content (fetch_structured_targeted w i tkr form (sec # secs) analysis)
           = [take 1500 (py_strip body) @ ''...''])"
      by (intro conjI)
  qed
  have 6: "search_post w i (search_query tkr form) = Response 200 (f # fs) \<and>
    slice_field 10 [] (filedAt f) = Inr date \<and>
    slice_field 180 (form @ '' filing'') (filing_description f) = Inr desc \<and>
    str_field [] (linkToFilingDetails f) = Inr url \<longrightarrow>
      map content (fetch_general_targeted w i tkr form analysis)
        = [general_content form (fmt_field ''Unknown Company'' (companyName f)) date desc] \<and>
      length date \<le> 10 \<and> length desc \<le> 180"
    using fetch_general_exact slice_field_length by blast
  have 7: "length (general_content form company date desc)
     = length form + length company + length date + length desc + 96"
    by (rule general_content_length)
  have 8: "\<forall>B. \<exists>w' :: 'v world. \<exists>c \<in> set (fetch_general_targeted w' i tkr form analysis).
       B < length (content c)"
    using general_unbounded by blast
  from 1 2 3 4 5 6 7 8 show ?thesis by (intro conjI)
qed

theorem targeted_fetcher_content_bounds_witness:
  "search_post (example_world (replicate 1600 CHR ''x'')) 0 (search_query ''AAPL'' ''10-K'')
     = Response 200 [example_filing] \<and>
   filing_link example_filing = Some ''https://www.sec.gov/f.htm'' \<and>
   extractor_get (example_world (replicate 1600 CHR ''x'')) 0 ''https://www.sec.gov/f.htm'' ''1A''
     = Response 200 (replicate 1600 CHR ''x'') \<and>
   1500 < length (py_strip (replicate 1600 CHR ''x'')) \<and>
   filedAt example_filing \<noteq> Null \<and>
   map content
     (fetch_structured_targeted (example_world (replicate 1600 CHR ''x'')) 0 ''AAPL'' ''10-K'' [''1A'']
        (example_query [''AAPL''] [''10-K''] single_ticker [''risk'']))
     = [replicate 1500 CHR ''x'' @ ''...'']"
proof -
  let ?w = "example_world (replicate 1600 CHR ''x'')"
  let ?q = "example_query [''AAPL''] [''10-K''] single_ticker [''risk'']"
  have s: "search_post ?w 0 (search_query ''AAPL'' ''10-K'') = Response 200 [example_filing]"
    by (simp add: example_world_def)
  have l: "filing_link example_filing = Some ''https://www.sec.gov/f.htm''"
    by (simp add: filing_link_def truthy_def example_filing_def)
  have e: "extractor_get ?w 0 ''https://www.sec.gov/f.htm'' ''1A'' = Response 200 (replicate 1600 CHR ''x'')"
    by (simp add: example_world_def)
  have p: "py_strip (replicate 1600 CHR ''x'') = replicate 1600 CHR ''x''"
    by (rule py_strip_replicate [OF not_space_x])
  have len: "1500 < length (py_strip (replicate 1600 CHR ''x''))" by (simp add: p)
  have n: "filedAt example_filing \<noteq> Null" by (simp add: example_filing_def)
  note th = targeted_fetcher_content_bounds [where w = ?w and i = 0 and tkr = "''AAPL''"
      and form = "''10-K''" and f = example_filing and fs = "[]" and link = "''https://www.sec.gov/f.htm''"
      and sec = "''1A''" and body = "replicate 1600 CHR ''x''" and secs = "[]" and analysis = ?q]
  from th s l e have "(1500 < length (py_strip (replicate 1600 CHR ''x'')) \<and> filedAt example_filing \<noteq> Null \<longrightarrow>
         map content (fetch_structured_targeted ?w 0 ''AAPL'' ''10-K'' [''1A''] ?q)
           = [take 1500 (py_strip (replicate 1600 CHR ''x'')) @ ''...''])"
    by blast
  with len n have "map content (fetch_structured_targeted ?w 0 ''AAPL'' ''10-K'' [''1A''] ?q)
           = [take 1500 (py_strip (replicate 1600 CHR ''x'')) @ ''...'']"
    by blast
  then have c: "map content (fetch_structured_targeted ?w 0 ''AAPL'' ''10-K'' [''1A''] ?q)
           = [replicate 1500 CHR ''x'' @ ''...'']"
    by (simp add: p)
  from s l e len n c show ?thesis by (intro conjI)
qed

text \<open>
  C5, on the code. In \<open>_fetch_insider_targeted\<close> a transaction whose acquired/disposed
  code is \<open>X\<close>, or is absent, is rendered as \<open>Disposed\<close>: the line of the record is
  \<open>- Disposed ...\<close>. The formatter of the general path, \<open>_format_insider_filing\<close>,
  passes the code \<open>X\<close> on as it is.
\<close>

theorem insider_code_rendered_disposed:
  "targeted_action (Str ''X'') = ''Disposed'' \<and>
   targeted_action Absent = ''Disposed'' \<and>
   insider_line ops (Str ''X'') sh px v
     = ''- Disposed '' @ fmt_grouped0 ops sh @ '' @ $'' @ fmt_fixed2 ops px @ '' ($'' @ fmt_grouped0 ops v @ '')'' \<and>
   nd_loop ops [\<lparr>shares = a, pricePerShare = b, acquiredDisposedCode = Str ''X''\<rparr>] tot ls
     = (case to_float ops a of
          None \<Rightarrow> (tot, ls)
        | Some sh' \<Rightarrow>
            (case to_float ops b of
               None \<Rightarrow> (tot, ls)
             | Some px' \<Rightarrow>
                 (fadd ops tot (fmul ops sh' px'),
                  ls @ [insider_line ops (Str ''X'') sh' px' (fmul ops sh' px')]))) \<and>
   format_insider_action (Str ''X'') = ''X''"
proof -
  have 1: "targeted_action (Str ''X'') = ''Disposed''" by (simp add: targeted_action_def)
  have 2: "targeted_action Absent = ''Disposed''" by (simp add: targeted_action_def)
  have 3: "insider_line ops (Str ''X'') sh px v
     = ''- Disposed '' @ fmt_grouped0 ops sh @ '' @ $'' @ fmt_fixed2 ops px @ '' ($'' @ fmt_grouped0 ops v @ '')''"
    by (simp add: insider_line_def targeted_action_def)
  have 4: "nd_loop ops [\<lparr>shares = a, pricePerShare = b, acquiredDisposedCode = Str ''X''\<rparr>] tot ls
     = (case to_float ops a of
          None \<Rightarrow> (tot, ls)
        | Some sh' \<Rightarrow>
            (case to_float ops b of
               None \<Rightarrow> (tot, ls)
             | Some px' \<Rightarrow>
                 (fadd ops tot (fmul ops sh' px'),
                  ls @ [insider_line ops (Str ''X'') sh' px' (fmul ops sh' px')])))"
    by (simp add: Let_def split: option.splits)
  have 5: "format_insider_action (Str ''X'') = ''X''"
    by (simp add: format_insider_action_def fmt_field_def)
  from 1 2 3 4 5 show ?thesis by (intro conjI)
qed

text \<open>
  C7. For every query, \<open>fetch_targeted_filings\<close> returns a value (the strategy never
  raises): the concatenation of the results of the fetches of the targets, cut to
  \<open>max_targets\<close>, in target order, when this concatenation is not empty; otherwise, when
  the fallback argument is \<open>general_small\<close>, the result of the probe, which is one fetch
  for one company and one form and holds at most two records; otherwise the empty list.
  When the probe finds nothing the result is the empty list: nothing runs after the probe.
\<close>

theorem fallback_controller:
  "\<exists>strategy. determine_retrieval_strategy analysis allow_default = Inr strategy \<and>
     (let ts = py_slice_to max_targets (targets strategy);
          per_target = concat (map (\<lambda>(i, t). fetch_target ops w analysis i t) (zip [0 ..< length ts] ts));
          probe = fetch_general_small_probe w (length ts) analysis;
          result = fetch_targeted_filings ops w analysis allow_default fallback max_targets
      in (per_target \<noteq> [] \<longrightarrow> result = Inr per_target) \<and>
         (per_target = [] \<and> fallback = ''general_small'' \<longrightarrow> result = Inr probe) \<and>
         (per_target = [] \<and> fallback \<noteq> ''general_small'' \<longrightarrow> result = Inr []) \<and>
         (per_target = [] \<and> probe = [] \<longrightarrow> result = Inr []) \<and>
         length probe \<le> 2 \<and>
         (\<exists>c. probe_cands analysis = [c] \<and>
              probe = take 2 (probe_fetch w analysis (length ts) (probe_form analysis) c)) \<and>
         (0 \<le> max_targets \<longrightarrow> length ts \<le> nat max_targets))"
proof -
  from strategy_companies_nonempty [of analysis]
  obtain c0 cs where c: "strategy_companies analysis = c0 # cs"
    by (cases "strategy_companies analysis") auto
  have "\<exists>s. determine_retrieval_strategy analysis allow_default = Inr s"
    by (simp add: determine_retrieval_strategy_def Let_def c)
  then obtain strategy where s: "determine_retrieval_strategy analysis allow_default = Inr strategy" ..
  let ?ts = "py_slice_to max_targets (targets strategy)"
  let ?per = "concat (map (\<lambda>(i, t). fetch_target ops w analysis i t) (zip [0 ..< length ?ts] ?ts))"
  let ?probe = "fetch_general_small_probe w (length ?ts) analysis"
  let ?result = "fetch_targeted_filings ops w analysis allow_default fallback max_targets"
  have run: "run_targets ops w analysis 0 ?ts [] = ?per"
    using run_targets_concat [of ops w analysis 0 ?ts "[]"] by simp
  define per where "per = ?per"
  define result where "result = ?result"
  have r: "result = (if per \<noteq> [] then Inr per
                      else if fallback = ''general_small'' then Inr ?probe else Inr [])"
    unfolding per_def result_def by (simp add: fetch_targeted_filings_def s Let_def run)
  have "per \<noteq> [] \<longrightarrow> result = Inr per" by (simp add: r)
  then have 1: "?per \<noteq> [] \<longrightarrow> ?result = Inr ?per" by (simp only: per_def result_def)
  have "per = [] \<and> fallback = ''general_small'' \<longrightarrow> result = Inr ?probe" by (simp add: r)
  then have 2: "?per = [] \<and> fallback = ''general_small'' \<longrightarrow> ?result = Inr ?probe"
    by (simp only: per_def result_def)
  have "per = [] \<and> fallback \<noteq> ''general_small'' \<longrightarrow> result = Inr []" by (simp add: r)
  then have 3: "?per = [] \<and> fallback \<noteq> ''general_small'' \<longrightarrow> ?result = Inr []"
    by (simp only: per_def result_def)
  have "per = [] \<and> ?probe = [] \<longrightarrow> result = Inr []" by (simp add: r)
  then have 4: "?per = [] \<and> ?probe = [] \<longrightarrow> ?result = Inr []"
    by (simp only: per_def result_def)
  have 5: "length ?probe \<le> 2" by (rule probe_length)
  from probe_cands_single obtain c where pc: "probe_cands analysis = [c]" by blast
  then have "?probe = take 2 (probe_fetch w analysis (length ?ts) (probe_form analysis) c)"
    by (rule probe_single_fetch)
  with pc have 6: "\<exists>c. probe_cands analysis = [c] \<and>
              ?probe = take 2 (probe_fetch w analysis (length ?ts) (probe_form analysis) c)"
    by blast
  have 7: "0 \<le> max_targets \<longrightarrow> length ?ts \<le> nat max_targets"
    by (simp add: py_slice_to_length)
  show ?thesis
  proof (rule exI [of _ strategy], rule conjI)
    show "determine_retrieval_strategy analysis allow_default = Inr strategy" by (rule s)
  next
    show "let ts = ?ts;
          per_target = concat (map (\<lambda>(i, t). fetch_target ops w analysis i t) (zip [0 ..< length ts] ts));
          probe = fetch_general_small_probe w (length ts) analysis;
          result = fetch_targeted_filings ops w analysis allow_default fallback max_targets
      in (per_target \<noteq> [] \<longrightarrow> result = Inr per_target) \<and>
         (per_target = [] \<and> fallback = ''general_small'' \<longrightarrow> result = Inr probe) \<and>
         (per_target = [] \<and> fallback \<noteq> ''general_small'' \<longrightarrow> result = Inr []) \<and>
         (per_target = [] \<and> probe = [] \<longrightarrow> result = Inr []) \<and>
         length probe \<le> 2 \<and>
         (\<exists>c. probe_cands analysis = [c] \<and>
              probe = take 2 (probe_fetch w analysis (length ts) (probe_form analysis) c)) \<and>
         (0 \<le> max_targets \<longrightarrow> length ts \<le> nat max_targets)"
      unfolding Let_def by (intro conjI) (fact 1 2 3 4 5 6 7)+
  qed
qed

theorem fallback_controller_witness:
  "determine_retrieval_strategy (example_query [''AAPL''] [''10-K''] single_ticker [''risk'']) False
     = Inr \<lparr> description = ''10-K Risk factors (Item 1A)'', reason = ''explicit_form_or_keyword'',
             targets = [mk_target ''10-K'' [''1A''] ''AAPL''] \<rparr> \<and>
   fetch_target example_ops (example_world ''short'')
       (example_query [''AAPL''] [''10-K''] single_ticker [''risk'']) 0 (mk_target ''10-K'' [''1A''] ''AAPL'') = [] \<and>
   fetch_general_small_probe (example_world ''short'') 1
       (example_query [''AAPL''] [''10-K''] single_ticker [''risk'']) = [] \<and>
   fetch_targeted_filings example_ops (example_world ''short'')
       (example_query [''AAPL''] [''10-K''] single_ticker [''risk'']) False ''general_small'' 6 = Inr []"
proof -
  let ?q = "example_query [''AAPL''] [''10-K''] single_ticker [''risk'']"
  let ?w = "example_world ''short''"
  let ?t = "mk_target ''10-K'' [''1A''] ''AAPL''"
  let ?S = "\<lparr> description = ''10-K Risk factors (Item 1A)'', reason = ''explicit_form_or_keyword'',
             targets = [?t] \<rparr>"
  have d: "determine_retrieval_strategy ?q False = Inr ?S" by code_simp
  have ft: "fetch_target example_ops ?w ?q 0 ?t = []" by code_simp
  have pr: "fetch_general_small_probe ?w 1 ?q = []" by code_simp
  from fallback_controller [where analysis = ?q and allow_default = False and max_targets = 6
      and ops = example_ops and w = ?w and fallback = "''general_small''"]
  obtain strategy where s: "determine_retrieval_strategy ?q False = Inr strategy"
    and L: "(let ts = py_slice_to 6 (targets strategy);
          per_target = concat (map (\<lambda>(i, t). fetch_target example_ops ?w ?q i t) (zip [0 ..< length ts] ts));
          probe = fetch_general_small_probe ?w (length ts) ?q;
          result = fetch_targeted_filings example_ops ?w ?q False ''general_small'' 6
      in (per_target \<noteq> [] \<longrightarrow> result = Inr per_target) \<and>
         (per_target = [] \<and> ''general_small'' = ''general_small'' \<longrightarrow> result = Inr probe) \<and>
         (per_target = [] \<and> ''general_small'' \<noteq> ''general_small'' \<longrightarrow> result = Inr []) \<and>
         (per_target = [] \<and> probe = [] \<longrightarrow> result = Inr []) \<and>
         length probe \<le> 2 \<and>
         (\<exists>c. probe_cands ?q = [c] \<and>
              probe = take 2 (probe_fetch ?w ?q (length ts) (probe_form ?q) c)) \<and>
         (0 \<le> (6::int) \<longrightarrow> length ts \<le> nat 6))"
    by blast
  from s d have st: "strategy = ?S" by simp
  have ts: "py_slice_to 6 (targets ?S) = [?t]" by (simp add: py_slice_to_def)
  from L have "concat (map (\<lambda>(i, t). fetch_target example_ops ?w ?q i t) (zip [0 ..< length [?t]] [?t])) = [] \<and>
       fetch_general_small_probe ?w (length [?t]) ?q = [] \<longrightarrow>
       fetch_targeted_filings example_ops ?w ?q False ''general_small'' 6 = Inr []"
    unfolding Let_def st ts by (rule conjunct1 [OF conjunct2 [OF conjunct2 [OF conjunct2]]])
  with ft pr have r: "fetch_targeted_filings example_ops ?w ?q False ''general_small'' 6 = Inr []"
    by simp
  from d ft pr r show ?thesis by (intro conjI)
qed

text \<open>
  C8, as stated, fails: the handler is \<open>except Exception\<close>. When the query analyser raises
  \<open>KeyboardInterrupt\<close>, which is not of class \<open>Exception\<close>, \<open>answer_question\<close> raises it
  to its caller.
\<close>

theorem base_exception_propagates_counterexample:
  "query_analyzer (failing_services (BaseExc ''KeyboardInterrupt'')) ''What are the risks?''
     = Inl (BaseExc ''KeyboardInterrupt'') \<and>
   answer_flow (failing_services (BaseExc ''KeyboardInterrupt'')) ''What are the risks?'' empty_state
     = (empty_state, Inl (BaseExc ''KeyboardInterrupt'')) \<and>
   answer_question (failing_services (BaseExc ''KeyboardInterrupt'')) ''What are the risks?'' empty_state
     = (empty_state, Inl (BaseExc ''KeyboardInterrupt''))"
  by (simp add: answer_question_def answer_flow_def failing_services_def)

text \<open>
  C8, amended. When the body of \<open>answer_question\<close> ends with an exception of class
  \<open>Exception\<close> with message \<open>msg\<close>, the call returns an answer whose confidence is 0,
  whose sources are empty, whose text is \<open>Error: msg\<close> and whose limitations hold the note
  \<open>Internal error during analysis.\<close>; no exception of class \<open>Exception\<close> reaches the
  caller. What the body raises outside class \<open>Exception\<close> reaches the caller unchanged.
  When the body returns an answer, the call returns it. The body ends with what the query
  analyser, the company resolver or the financial analyst raises.
\<close>

theorem top_level_handler:
  "(\<forall>msg. snd (answer_flow sv question st) = Inl (Exc msg) \<longrightarrow>
      snd (answer_question sv question st) = Inr (error_answer msg) \<and>
      ans_confidence_score (error_answer msg) = 0 \<and> sources (error_answer msg) = [] \<and>
      answer (error_answer msg) = ''Error: '' @ msg \<and>
      limitations (error_answer msg) = [''Internal error during analysis.''] \<and>
      companies_analyzed (error_answer msg) = [] \<and> filing_types_used (error_answer msg) = []) \<and>
   (\<forall>msg. snd (answer_question sv question st) \<noteq> Inl (Exc msg)) \<and>
   (\<forall>name. snd (answer_flow sv question st) = Inl (BaseExc name) \<longrightarrow>
      snd (answer_question sv question st) = Inl (BaseExc name)) \<and>
   (\<forall>a. snd (answer_flow sv question st) = Inr a \<longrightarrow> snd (answer_question sv question st) = Inr a) \<and>
   fst (answer_question sv question st) = fst (answer_flow sv question st) \<and>
   (\<forall>e. query_analyzer sv question = Inl e \<longrightarrow> answer_flow sv question st = (st, Inl e)) \<and>
   (\<forall>analysis e. query_analyzer sv question = Inr analysis \<and>
        determine_companies (company_resolve sv) analysis = Inl e \<longrightarrow>
        answer_flow sv question st = (st, Inl e)) \<and>
   (\<forall>analysis companies e. query_analyzer sv question = Inr analysis \<and>
        determine_companies (company_resolve sv) analysis = Inr companies \<and>
        financial_analyst sv
          (allowed_block_of (allowed_lines_of (snd (retrieve_documents (fetch_filings sv) companies analysis st)))
             @ newline @ question)
          (snd (retrieve_documents (fetch_filings sv) companies analysis st)) = Inl e \<longrightarrow>
        answer_flow sv question st
          = (fst (retrieve_documents (fetch_filings sv) companies analysis st), Inl e))"
proof -
  have 1: "\<forall>msg. snd (answer_flow sv question st) = Inl (Exc msg) \<longrightarrow>
      snd (answer_question sv question st) = Inr (error_answer msg) \<and>
      ans_confidence_score (error_answer msg) = 0 \<and> sources (error_answer msg) = [] \<and>
      answer (error_answer msg) = ''Error: '' @ msg \<and>
      limitations (error_answer msg) = [''Internal error during analysis.''] \<and>
      companies_analyzed (error_answer msg) = [] \<and> filing_types_used (error_answer msg) = []"
    using answer_question_caught error_answer_fields by blast
  have 2: "\<forall>msg. snd (answer_question sv question st) \<noteq> Inl (Exc msg)"
    using answer_question_no_exception by blast
  have 3: "\<forall>name. snd (answer_flow sv question st) = Inl (BaseExc name) \<longrightarrow>
      snd (answer_question sv question st) = Inl (BaseExc name)"
    using answer_question_passed by blast
  have 4: "\<forall>a. snd (answer_flow sv question st) = Inr a \<longrightarrow> snd (answer_question sv question st) = Inr a"
    using answer_question_ok by blast
  have 5: "fst (answer_question sv question st) = fst (answer_flow sv question st)"
    by (rule answer_question_state)
  have 6: "\<forall>e. query_analyzer sv question = Inl e \<longrightarrow> answer_flow sv question st = (st, Inl e)"
    by (simp add: answer_flow_def)
  have 7: "\<forall>analysis e. query_analyzer sv question = Inr analysis \<and>
        determine_companies (company_resolve sv) analysis = Inl e \<longrightarrow>
        answer_flow sv question st = (st, Inl e)"
    by (simp add: answer_flow_def)
  have 8: "\<forall>analysis companies e. query_analyzer sv question = Inr analysis \<and>
        determine_companies (company_resolve sv) analysis = Inr companies \<and>
        financial_analyst sv
          (allowed_block_of (allowed_lines_of (snd (retrieve_documents (fetch_filings sv) companies analysis st)))
             @ newline @ question)
          (snd (retrieve_documents (fetch_filings sv) companies analysis st)) = Inl e \<longrightarrow>
        answer_flow sv question st
          = (fst (retrieve_documents (fetch_filings sv) companies analysis st), Inl e)"
    by (auto simp: answer_flow_def Let_def split: prod.splits)
  from 1 2 3 4 5 6 7 8 show ?thesis by (intro conjI)
qed

theorem top_level_handler_witness:
  "query_analyzer (failing_services (Exc ''model timeout'')) ''What are the risks?''
     = Inl (Exc ''model timeout'') \<and>
   snd (answer_flow (failing_services (Exc ''model timeout'')) ''What are the risks?'' empty_state)
     = Inl (Exc ''model timeout'') \<and>
   snd (answer_question (failing_services (Exc ''model timeout'')) ''What are the risks?'' empty_state)
     = Inr (error_answer ''model timeout'') \<and>
   answer (error_answer ''model timeout'') = ''Error: model timeout'' \<and>
   ans_confidence_score (error_answer ''model timeout'') = 0 \<and>
   sources (error_answer ''model timeout'') = [] \<and>
   limitations (error_answer ''model timeout'') = [''Internal error during analysis.'']"
proof -
  let ?sv = "failing_services (Exc ''model timeout'')"
  let ?q = "''What are the risks?''"
  note th = top_level_handler [of ?sv ?q empty_state]
  have qa: "query_analyzer ?sv ?q = Inl (Exc ''model timeout'')" by (simp add: failing_services_def)
  from th have "\<forall>e. query_analyzer ?sv ?q = Inl e \<longrightarrow> answer_flow ?sv ?q empty_state = (empty_state, Inl e)"
    by (rule conjunct1 [OF conjunct2 [OF conjunct2 [OF conjunct2 [OF conjunct2 [OF conjunct2]]]]])
  with qa have fl: "answer_flow ?sv ?q empty_state = (empty_state, Inl (Exc ''model timeout''))" by blast
  then have sf: "snd (answer_flow ?sv ?q empty_state) = Inl (Exc ''model timeout'')" by simp
  from th have "\<forall>msg. snd (answer_flow ?sv ?q empty_state) = Inl (Exc msg) \<longrightarrow>
      snd (answer_question ?sv ?q empty_state) = Inr (error_answer msg) \<and>
      ans_confidence_score (error_answer msg) = 0 \<and> sources (error_answer msg) = [] \<and>
      answer (error_answer msg) = ''Error: '' @ msg \<and>
      limitations (error_answer msg) = [''Internal error during analysis.''] \<and>
      companies_analyzed (error_answer msg) = [] \<and> filing_types_used (error_answer msg) = []"
    by (rule conjunct1)
  with sf have "snd (answer_question ?sv ?q empty_state) = Inr (error_answer ''model timeout'') \<and>
      ans_confidence_score (error_answer ''model timeout'') = 0 \<and> sources (error_answer ''model timeout'') = [] \<and>
      answer (error_answer ''model timeout'') = ''Error: '' @ ''model timeout'' \<and>
      limitations (error_answer ''model timeout'') = [''Internal error during analysis.''] \<and>
      companies_analyzed (error_answer ''model timeout'') = [] \<and> filing_types_used (error_answer ''model timeout'') = []"
    by blast
  with qa sf show ?thesis by simp
qed

end
